theory Spec2Isabelle
  imports Main "HOL-Library.Char_ord" "HOL-Library.List_Lexorder"
begin

text \<open>
  A model of the spreadsheet processor (\<open>src/data_processor.py\<close>: loading a
  workbook into the table of eight columns, listing the values of a column,
  filtering) and of the report generator (\<open>src/pdf_generator.py\<close>: one document per
  customer), followed by the properties proved of them.
\<close>

section \<open>Python values\<close>

text \<open>
  A Python \<open>str\<close> is a \<^typ>\<open>string\<close>; every \<^typ>\<open>char\<close> stands for the code point
  of the same number, so the model covers the code points below 256, which is enough
  for the accented column name and messages of the program. The predicates below are
  the tables of \<open>str.isspace\<close>, \<open>str.lower\<close> and \<open>str.isalnum\<close> on that range.
\<close>

definition isspace :: "char \<Rightarrow> bool" where
  "isspace c =
     (let n = (of_char c :: nat)
      in (9 \<le> n \<and> n \<le> 13) \<or> (28 \<le> n \<and> n \<le> 32) \<or> n = 133 \<or> n = 160)"

definition strip :: "string \<Rightarrow> string" where
  "strip s = rev (dropWhile isspace (rev (dropWhile isspace s)))"

definition lower_char :: "char \<Rightarrow> char" where
  "lower_char c =
     (let n = (of_char c :: nat)
      in if (65 \<le> n \<and> n \<le> 90) \<or> (192 \<le> n \<and> n \<le> 214) \<or> (216 \<le> n \<and> n \<le> 222)
         then char_of (n + 32) else c)"

definition lower :: "string \<Rightarrow> string" where
  "lower s = map lower_char s"

definition isalnum :: "char \<Rightarrow> bool" where
  "isalnum c =
     (let n = (of_char c :: nat)
      in (48 \<le> n \<and> n \<le> 57) \<or> (65 \<le> n \<and> n \<le> 90) \<or> (97 \<le> n \<and> n \<le> 122)
         \<or> n = 170 \<or> n = 178 \<or> n = 179 \<or> n = 181 \<or> n = 185 \<or> n = 186
         \<or> (188 \<le> n \<and> n \<le> 190) \<or> (192 \<le> n \<and> n \<le> 214)
         \<or> (216 \<le> n \<and> n \<le> 246) \<or> (248 \<le> n \<and> n \<le> 255))"

definition startswith :: "string \<Rightarrow> string \<Rightarrow> bool" where
  "startswith s p = (take (length p) s = p)"

fun join :: "string \<Rightarrow> string list \<Rightarrow> string" where
  "join sep [] = []"
| "join sep [x] = x"
| "join sep (x # y # ys) = x @ sep @ join sep (y # ys)"

fun str_nat :: "nat \<Rightarrow> string" where
  "str_nat n =
     (if n < 10 then [char_of (48 + n)]
      else str_nat (n div 10) @ [char_of (48 + n mod 10)])"

declare str_nat.simps [simp del]

definition str_int :: "int \<Rightarrow> string" where
  "str_int i = (if i < 0 then CHR ''-'' # str_nat (nat (- i)) else str_nat (nat i))"

text \<open>
  A value held in a spreadsheet cell or in a frame: \<open>NaN\<close> is the missing value
  (a blank cell), \<open>Str\<close> a Python \<open>str\<close>, \<open>Num\<close> a number. Numbers are integers
  in this model and \<open>py_str\<close> writes them in decimal; floats and dates are not
  represented, nor is the decimal part pandas adds to the text of an integer that
  shares its column with blanks. No property below depends on the text of a number.
\<close>

datatype cell = NaN | Str string | Num int

definition py_str :: "cell \<Rightarrow> string" where
  "py_str v = (case v of NaN \<Rightarrow> ''nan'' | Str s \<Rightarrow> s | Num i \<Rightarrow> str_int i)"

definition notna :: "cell \<Rightarrow> bool" where
  "notna v = (case v of NaN \<Rightarrow> False | _ \<Rightarrow> True)"

definition is_str :: "cell \<Rightarrow> bool" where
  "is_str v = (case v of Str s \<Rightarrow> True | _ \<Rightarrow> False)"

text \<open>
  The exceptions the program can meet. \<open>BuildError\<close> stands for whatever exception
  reportlab raises while it makes the table of a document and builds and writes the
  file. \<open>NotModelled\<close> is not a Python exception: it marks the one pandas behaviour
  this model leaves out, the selection of rows by a label that several columns carry.
  \<open>str_error\<close> stands for \<open>str(e)\<close>; the wording of the text is pandas', and the
  model puts the name of the exception class in its place.
\<close>

datatype py_error = KeyError | TypeError | AttributeError | ValueError | BuildError | NotModelled

definition str_error :: "py_error \<Rightarrow> string" where
  "str_error e =
     (case e of KeyError \<Rightarrow> ''KeyError'' | TypeError \<Rightarrow> ''TypeError''
      | AttributeError \<Rightarrow> ''AttributeError'' | ValueError \<Rightarrow> ''ValueError''
      | BuildError \<Rightarrow> ''BuildError'' | NotModelled \<Rightarrow> ''NotModelled'')"

section \<open>The pandas operations the program calls\<close>

text \<open>
  The operations behave as in pandas 2. A \<open>DataFrame\<close> is its column labels and its
  rows, in order. The row index is left
  out: the program addresses rows by position only (boolean masks, whole-column
  assignment of a \<open>range\<close>). Labels are values, since a header cell that holds a
  number becomes a label that is a number.
\<close>

record dataframe =
  columns :: "cell list"
  rows :: "cell list list"

type_synonym sheet = "cell list list"

definition len :: "dataframe \<Rightarrow> nat" where
  "len d = length (rows d)"

definition positions :: "cell \<Rightarrow> cell list \<Rightarrow> nat list" where
  "positions l ls = [i \<leftarrow> [0..<length ls]. ls ! i = l]"

definition take_columns :: "nat list \<Rightarrow> dataframe \<Rightarrow> dataframe" where
  "take_columns idxs d =
     \<lparr>columns = map (\<lambda>i. columns d ! i) idxs,
      rows = map (\<lambda>r. map (\<lambda>i. r ! i) idxs) (rows d)\<rparr>"

text \<open>
  The sheet is the grid of values \<open>pd.read_excel\<close> parses from the workbook, top row
  first. pandas pads short rows with blanks up to the widest row. Read with
  \<open>header=None\<close> every row is data. Read with \<open>header=k\<close>, row \<open>k\<close> gives the labels
  and the rows below it are the data: a blank header cell is named
  \<open>Unnamed: i\<close> after its position, and a label that has occurred before gets a
  numbered suffix (pandas also steps the suffix past labels already in use; the
  labels this changes carry a dot, so none of them is an expected column name).
\<close>

definition pad :: "sheet \<Rightarrow> sheet" where
  "pad g = (let w = foldr (\<lambda>r m. max (length r) m) g 0
            in map (\<lambda>r. r @ replicate (w - length r) NaN) g)"

definition read_excel_no_header :: "sheet \<Rightarrow> cell list list" where
  "read_excel_no_header arquivo = pad arquivo"

definition unnamed :: "nat \<Rightarrow> cell \<Rightarrow> cell" where
  "unnamed i c =
     (case c of NaN \<Rightarrow> Str (''Unnamed: '' @ str_nat i)
      | Str s \<Rightarrow> if s = [] then Str (''Unnamed: '' @ str_nat i) else Str s
      | Num n \<Rightarrow> Num n)"

fun mangle_dupe_cols :: "cell list \<Rightarrow> cell list \<Rightarrow> cell list" where
  "mangle_dupe_cols seen [] = []"
| "mangle_dupe_cols seen (c # cs) =
     (let k = count_list seen c
      in (if k = 0 then c else Str (py_str c @ ''.'' @ str_nat k))
         # mangle_dupe_cols (c # seen) cs)"

definition header_labels :: "cell list \<Rightarrow> cell list" where
  "header_labels line =
     mangle_dupe_cols [] (map (\<lambda>(i, c). unnamed i c) (zip [0..<length line] line))"

definition read_excel_header :: "sheet \<Rightarrow> nat \<Rightarrow> dataframe" where
  "read_excel_header arquivo header_row =
     (case drop header_row (pad arquivo) of
        [] \<Rightarrow> \<lparr>columns = [], rows = []\<rparr>
      | line # below \<Rightarrow> \<lparr>columns = header_labels line, rows = below\<rparr>)"

text \<open>
  \<open>df.loc[:, ~df.columns.str.contains('^Unnamed')]\<close>: on a label that is not a
  \<open>str\<close> the match is missing rather than a boolean, and negating the mask raises
  \<open>TypeError\<close>.
\<close>

definition drop_unnamed :: "dataframe \<Rightarrow> py_error + dataframe" where
  "drop_unnamed d =
     (if list_ex (\<lambda>l. \<not> is_str l) (columns d) then Inl TypeError
      else Inr (take_columns
                  [i \<leftarrow> [0..<length (columns d)]. \<not> startswith (py_str (columns d ! i)) ''Unnamed''] d))"

text \<open>\<open>df[names]\<close>: for each name, every column that carries that label.\<close>

definition select_columns :: "string list \<Rightarrow> dataframe \<Rightarrow> dataframe" where
  "select_columns names d =
     take_columns (concat (map (\<lambda>n. positions (Str n) (columns d)) names)) d"

text \<open>\<open>df.dropna(how='all')\<close> keeps the rows that hold at least one value.\<close>

definition dropna_all :: "dataframe \<Rightarrow> dataframe" where
  "dropna_all d = d\<lparr>rows := filter (\<lambda>r. list_ex notna r) (rows d)\<rparr>"

text \<open>
  \<open>df[coluna] = df[coluna].astype(str)\<close> rewrites, in place, every column that
  carries the label; a missing value becomes the text \<open>nan\<close>.
\<close>

definition astype_str_column :: "cell \<Rightarrow> dataframe \<Rightarrow> dataframe" where
  "astype_str_column coluna d =
     d\<lparr>rows := map (\<lambda>r. map (\<lambda>(l, c). if l = coluna then Str (py_str c) else c)
                            (zip (columns d) r)) (rows d)\<rparr>"

text \<open>
  \<open>df[coluna] = values\<close> with one value per row: an existing label has its
  column (every column that carries it) overwritten in place, a new label is
  appended as the last column.
\<close>

definition assign_column :: "cell \<Rightarrow> cell list \<Rightarrow> dataframe \<Rightarrow> dataframe" where
  "assign_column coluna vals d =
     (if coluna \<in> set (columns d)
      then d\<lparr>rows := map (\<lambda>(r, v). map (\<lambda>(l, c). if l = coluna then v else c)
                                        (zip (columns d) r))
                          (zip (rows d) vals)\<rparr>
      else \<lparr>columns = columns d @ [coluna],
            rows = map (\<lambda>(r, v). r @ [v]) (zip (rows d) vals)\<rparr>)"

definition py_range :: "nat \<Rightarrow> nat \<Rightarrow> cell list" where
  "py_range a b = map (\<lambda>k. Num (int k)) [a..<b]"

fun index_of :: "cell \<Rightarrow> cell list \<Rightarrow> nat option" where
  "index_of l [] = None"
| "index_of l (x # xs) = (if x = l then Some 0 else map_option Suc (index_of l xs))"

text \<open>
  \<open>df.reindex(columns=names)\<close>: the named columns in the order given, a name the
  frame lacks becoming a column of missing values. pandas refuses to reindex an
  axis with a repeated label (\<open>ValueError\<close>).
\<close>

definition reindex_columns :: "string list \<Rightarrow> dataframe \<Rightarrow> py_error + dataframe" where
  "reindex_columns names d =
     (if \<not> distinct (columns d) then Inl ValueError
      else Inr \<lparr>columns = map Str names,
                rows = map (\<lambda>r. map (\<lambda>n. case index_of (Str n) (columns d) of
                                             None \<Rightarrow> NaN | Some i \<Rightarrow> r ! i) names)
                           (rows d)\<rparr>)"

text \<open>
  \<open>df[name]\<close> is a series when one column carries the label and a frame when
  several do; a label the frame lacks raises \<open>KeyError\<close>.
\<close>

datatype selection = Missing | Series "cell list" | Frame "nat list"

definition getitem :: "string \<Rightarrow> dataframe \<Rightarrow> selection" where
  "getitem name d =
     (case positions (Str name) (columns d) of
        [] \<Rightarrow> Missing
      | [i] \<Rightarrow> Series (map (\<lambda>r. r ! i) (rows d))
      | i # j # idxs \<Rightarrow> Frame (i # j # idxs))"

text \<open>
  \<open>series.isin(values)\<close> with a list of \<open>str\<close>: a cell matches when it is a
  \<open>str\<close> in the list; a number or a missing value equals no \<open>str\<close>.
\<close>

definition isin :: "string list \<Rightarrow> cell \<Rightarrow> bool" where
  "isin vals c = (case c of Str x \<Rightarrow> x \<in> set vals | _ \<Rightarrow> False)"

text \<open>\<open>series == value\<close>, cell by cell: a missing value equals nothing.\<close>

definition py_eq :: "cell \<Rightarrow> cell \<Rightarrow> bool" where
  "py_eq a b = (a = b \<and> notna a)"

text \<open>\<open>df[mask]\<close> keeps the rows whose mask entry is true, in order.\<close>

definition boolean_index :: "bool list \<Rightarrow> dataframe \<Rightarrow> dataframe" where
  "boolean_index keep d = d\<lparr>rows := map fst (filter snd (zip (rows d) keep))\<rparr>"

text \<open>\<open>series.unique()\<close>: the distinct values in order of first appearance.\<close>

fun unique_loop :: "cell list \<Rightarrow> cell list \<Rightarrow> cell list" where
  "unique_loop seen [] = []"
| "unique_loop seen (v # vs) =
     (if v \<in> set seen then unique_loop seen vs else v # unique_loop (v # seen) vs)"

definition unique :: "cell list \<Rightarrow> cell list" where
  "unique vs = unique_loop [] vs"

section \<open>DataProcessor\<close>

text \<open>
  Frames are objects: \<open>objs\<close> maps an address to the frame stored there, \<open>nxt\<close>
  is the next free address, and \<open>self_df\<close> is the attribute \<open>self.df\<close>, \<open>None\<close>
  or the address of a frame. A pandas call that returns a frame allocates;
  an item assignment updates the frame at its address.
\<close>

record processor =
  objs :: "nat \<Rightarrow> dataframe"
  nxt :: nat
  self_df :: "nat option"

text \<open>
  \<open>new_frame\<close> stores a frame at a fresh address; \<open>set_df\<close> is \<open>self.df = ...\<close> with
  a frame a pandas call returned; \<open>update_df\<close> is an assignment into the frame
  \<open>self.df\<close> refers to; \<open>cur\<close> reads that frame. \<open>init\<close> is the processor
  \<open>__init__\<close> leaves, \<open>colunas_esperadas\<close> its list of expected columns.
\<close>

definition new_frame :: "dataframe \<Rightarrow> processor \<Rightarrow> processor \<times> nat" where
  "new_frame d s = (s\<lparr>objs := (objs s)(nxt s := d), nxt := Suc (nxt s)\<rparr>, nxt s)"

definition set_df :: "dataframe \<Rightarrow> processor \<Rightarrow> processor" where
  "set_df d s = (let (s', r) = new_frame d s in s'\<lparr>self_df := Some r\<rparr>)"

definition update_df :: "(dataframe \<Rightarrow> dataframe) \<Rightarrow> processor \<Rightarrow> processor" where
  "update_df f s =
     (case self_df s of None \<Rightarrow> s
      | Some r \<Rightarrow> s\<lparr>objs := (objs s)(r := f (objs s r))\<rparr>)"

definition cur :: "processor \<Rightarrow> dataframe" where
  "cur s = (case self_df s of None \<Rightarrow> \<lparr>columns = [], rows = []\<rparr> | Some r \<Rightarrow> objs s r)"

definition colunas_esperadas :: "string list" where
  "colunas_esperadas =
     [''Item'', ''Chassi'', ''Modelo'', ''Cliente'', ''Cidade'', ''Status Funcionamento'',
      ''Manuten'' @ [CHR 0xE7, CHR 0xE3] @ ''o'', ''Quantidade'']"

definition init :: processor where
  "init = \<lparr>objs = (\<lambda>r. \<lparr>columns = [], rows = []\<rparr>), nxt = 0, self_df = None\<rparr>"

text \<open>
  \<open>validar_colunas\<close>: \<open>col.startswith\<close> on a label that is not a \<open>str\<close> raises
  \<open>AttributeError\<close>. \<open>repr\<close> and \<open>msg_validacao\<close> build the message of the failed
  validation, with the labels quoted as Python prints a list of plain strings.
\<close>

definition repr :: "cell \<Rightarrow> string" where
  "repr v = (case v of Str s \<Rightarrow> [CHR 0x27] @ s @ [CHR 0x27] | _ \<Rightarrow> py_str v)"

definition validar_colunas :: "dataframe \<Rightarrow> py_error + bool \<times> string" where
  "validar_colunas d =
     (if list_ex (\<lambda>col. \<not> is_str col) (columns d) then Inl AttributeError
      else
        (let colunas_atuais = [col \<leftarrow> columns d. \<not> startswith (py_str col) ''Unnamed''];
             colunas_faltantes = [col \<leftarrow> colunas_esperadas. Str col \<notin> set colunas_atuais]
         in if colunas_faltantes \<noteq> []
            then Inr (False, ''Colunas faltantes: '' @ join '', '' colunas_faltantes)
            else Inr (True, ''Todas as colunas est'' @ [CHR 0xE3] @ ''o presentes'')))"

text \<open>
  The search for the header row (the \<open>for idx, row in df_temp.iterrows()\<close> loop):
  the index of the first row whose values, blanks left out, include one that is
  \<open>item\<close> after \<open>str(val).lower().strip()\<close>.
\<close>

fun header_loop :: "nat \<Rightarrow> cell list list \<Rightarrow> nat option" where
  "header_loop idx [] = None"
| "header_loop idx (row # below) =
     (let row_values = [strip (lower (py_str val)). val \<leftarrow> row, notna val]
      in if ''item'' \<in> set row_values then Some idx else header_loop (Suc idx) below)"

text \<open>
  The loop that converts every column but \<open>Quantidade\<close> to text; it runs over the
  labels the frame has when the loop starts.
\<close>

definition astype_loop :: "dataframe \<Rightarrow> dataframe" where
  "astype_loop d =
     foldl (\<lambda>d' coluna. if coluna \<noteq> Str ''Quantidade'' then astype_str_column coluna d' else d')
           d (columns d)"

definition msg_header :: string where
  "msg_header = ''N'' @ [CHR 0xE3] @ ''o foi poss'' @ [CHR 0xED] @ ''vel encontrar a linha de cabe''
                @ [CHR 0xE7] @ ''alho com '' @ [CHR 0x27] @ ''Item'' @ [CHR 0x27]"

definition msg_validacao :: "string \<Rightarrow> cell list \<Rightarrow> string" where
  "msg_validacao mensagem cols =
     ''Erro na valida'' @ [CHR 0xE7, CHR 0xE3] @ ''o das colunas: '' @ mensagem @ [CHR 0x0A]
     @ ''Colunas encontradas: ['' @ join '', '' (map repr cols) @ '']''"

text \<open>
  The body of the \<open>try\<close> of \<open>processar_arquivo\<close> once the header row is known,
  statement by statement: \<open>self.df\<close> is assigned as soon as the sheet is read, so an
  exception further down leaves the frame built so far in the processor. Any
  exception ends the method with \<open>False\<close> and a message.
\<close>

definition processar_try :: "processor \<Rightarrow> sheet \<Rightarrow> nat \<Rightarrow> processor \<times> (py_error + bool \<times> string)" where
  "processar_try s arquivo header_row =
     (let s1 = set_df (read_excel_header arquivo header_row) s
      in case drop_unnamed (cur s1) of
           Inl e \<Rightarrow> (s1, Inl e)
         | Inr d2 \<Rightarrow>
            (let s2 = set_df d2 s1;
                 s3 = update_df (\<lambda>d. d\<lparr>columns := map (\<lambda>col. Str (strip (py_str col))) (columns d)\<rparr>) s2;
                 colunas_presentes = [col \<leftarrow> colunas_esperadas. Str col \<in> set (columns (cur s3))];
                 s4 = set_df (select_columns colunas_presentes (cur s3)) s3;
                 s5 = set_df (dropna_all (cur s4)) s4;
                 s6 = update_df astype_loop s5;
                 s7 = update_df (\<lambda>d. assign_column (Str ''Quantidade'') (py_range 1 (len d + 1)) d) s6
             in case reindex_columns colunas_esperadas (cur s7) of
                  Inl e \<Rightarrow> (s7, Inl e)
                | Inr d8 \<Rightarrow>
                   (let s8 = set_df d8 s7
                    in case validar_colunas (cur s8) of
                         Inl e \<Rightarrow> (s8, Inl e)
                       | Inr (valido, mensagem) \<Rightarrow>
                           if \<not> valido
                           then (s8, Inr (False, msg_validacao mensagem (columns (cur s8))))
                           else (s8, Inr (True, ''Arquivo processado com sucesso!'')))))"

definition processar_arquivo :: "processor \<Rightarrow> sheet \<Rightarrow> processor \<times> bool \<times> string" where
  "processar_arquivo s arquivo =
     (let df_temp = read_excel_no_header arquivo
      in case header_loop 0 df_temp of
           None \<Rightarrow> (s, False, msg_header)
         | Some header_row \<Rightarrow>
            (case processar_try s arquivo header_row of
               (s', Inl e) \<Rightarrow> (s', False, ''Erro ao processar arquivo: '' @ str_error e)
             | (s', Inr r) \<Rightarrow> (s', r)))"

text \<open>
  \<open>get_valores_unicos\<close>: \<open>[]\<close> when nothing is loaded or the label is unknown; when
  several columns carry the label, \<open>self.df[coluna]\<close> is a frame, \<open>.unique()\<close> raises
  \<open>AttributeError\<close> and the handler returns \<open>[]\<close>.
\<close>

definition get_valores_unicos :: "processor \<Rightarrow> string \<Rightarrow> string list" where
  "get_valores_unicos s coluna =
     (case self_df s of
        None \<Rightarrow> []
      | Some r \<Rightarrow>
         (case getitem coluna (objs s r) of
            Missing \<Rightarrow> []
          | Frame idxs \<Rightarrow> []
          | Series valores \<Rightarrow>
              sort [strip (py_str val). val \<leftarrow> unique valores,
                    notna val \<and> strip (py_str val) \<noteq> []]))"

text \<open>
  The loop of \<open>filtrar_dados\<close>; \<open>df_filtrado\<close> is the address the local variable
  holds, and each boolean indexing makes a new frame. A filter with an empty value
  list is skipped; a label the frame lacks raises \<open>KeyError\<close>. Filtering on a label
  carried by several columns (possible only in a frame a failed load left behind)
  is outside the model.
\<close>

fun filtrar_loop :: "processor \<Rightarrow> nat \<Rightarrow> (string \<times> cell list) list \<Rightarrow> processor \<times> (py_error + nat)" where
  "filtrar_loop s df_filtrado [] = (s, Inr df_filtrado)"
| "filtrar_loop s df_filtrado ((coluna, valor) # filtros) =
     (if valor \<noteq> [] then
        (let valores_filtro = map py_str valor
         in case getitem coluna (objs s df_filtrado) of
              Missing \<Rightarrow> (s, Inl KeyError)
            | Frame idxs \<Rightarrow> (s, Inl NotModelled)
            | Series vs \<Rightarrow>
                (let (s', r) = new_frame (boolean_index (map (isin valores_filtro) vs)
                                                        (objs s df_filtrado)) s
                 in filtrar_loop s' r filtros))
      else filtrar_loop s df_filtrado filtros)"

text \<open>
  \<open>filtrar_dados\<close> returns the address of the frame it hands back. With nothing
  loaded, \<open>self.df.copy()\<close> raises \<open>AttributeError\<close> in the \<open>try\<close> and again in the
  handler, which makes the same call, so the exception leaves the method. Otherwise
  the \<open>try\<close> copies the table, filters the copy and renumbers \<open>Quantidade\<close> in the
  frame that results; on an exception the handler returns a fresh copy of \<open>self.df\<close>.
\<close>

definition filtrar_dados :: "processor \<Rightarrow> (string \<times> cell list) list \<Rightarrow> processor \<times> (py_error + nat)" where
  "filtrar_dados s filtros =
     (case self_df s of
        None \<Rightarrow> (s, Inl AttributeError)
      | Some r \<Rightarrow>
         (let (s1, df_filtrado) = new_frame (objs s r) s
          in case filtrar_loop s1 df_filtrado filtros of
               (s2, Inl NotModelled) \<Rightarrow> (s2, Inl NotModelled)
             | (s2, Inl e) \<Rightarrow> (let (s3, c) = new_frame (objs s2 r) s2 in (s3, Inr c))
             | (s2, Inr res) \<Rightarrow>
                 (s2\<lparr>objs := (objs s2)(res := assign_column (Str ''Quantidade'')
                                                 (py_range 1 (len (objs s2 res) + 1)) (objs s2 res))\<rparr>,
                  Inr res)))"

section \<open>PDFGenerator\<close>

text \<open>
  A document is recorded as what the program hands to reportlab (file name, title,
  header labels, body cells as text), and the list of documents built so far is the
  effect of a call. reportlab itself is a collaborator the program calls at two
  points where it can raise, and the model takes its answers as a parameter:
  \<open>paragraph_ok\<close> tells whether \<open>Paragraph(text, style)\<close> accepts a text (it reads
  the text as markup and raises \<open>ValueError\<close> on text it cannot parse, such as
  \<open>A<B\<close>); \<open>build_ok\<close> tells whether the table of a document can be made and the
  document laid out and written (\<open>Table(...)\<close>, \<open>doc.build\<close>). Styling is left out.
\<close>

record document =
  filename :: string
  titulo :: string
  headers :: "cell list"
  linhas :: "string list list"

record reportlab =
  paragraph_ok :: "string \<Rightarrow> bool"
  build_ok :: "document \<Rightarrow> bool"

text \<open>
  \<open>os.path.join\<close> on two components (POSIX), and the file name
  \<open>criar_pdf_por_cliente\<close> derives from the customer name.
\<close>

definition os_path_join :: "string \<Rightarrow> string \<Rightarrow> string" where
  "os_path_join a b =
     (if startswith b ''/'' then b
      else if a = [] \<or> last a = CHR ''/'' then a @ b
      else a @ ''/'' @ b)"

definition nome_seguro :: "string \<Rightarrow> string" where
  "nome_seguro cliente = strip (filter (\<lambda>c. isalnum c \<or> c \<in> set '' -_'') cliente)"

text \<open>
  \<open>criar_pdf_por_cliente\<close>, in the order of the source: the rows of the customer
  are selected; the generator over \<open>cliente\<close> needs a \<open>str\<close>, and a missing value or
  a number raises \<open>TypeError\<close>; the title is made a \<open>Paragraph\<close>, then every body
  cell, row by row (\<open>_formatar_celula\<close>), and the first text reportlab refuses raises
  \<open>ValueError\<close>; the table is made and the document built, which raises when
  reportlab cannot do it. Only then is the document counted as built and its file
  name returned. \<open>gerar_pdfs_todos_clientes\<close> calls it for each value of
  \<open>df['Cliente'].unique()\<close> and stops at the first exception, the documents built
  before it staying in place.
\<close>

definition criar_pdf_por_cliente ::
  "reportlab \<Rightarrow> string \<Rightarrow> dataframe \<Rightarrow> cell \<Rightarrow> document list
     \<Rightarrow> document list \<times> (py_error + string)" where
  "criar_pdf_por_cliente rl output_dir d cliente built =
     (case getitem ''Cliente'' d of
        Missing \<Rightarrow> (built, Inl KeyError)
      | Frame idxs \<Rightarrow> (built, Inl NotModelled)
      | Series vs \<Rightarrow>
         (let dados_cliente = boolean_index (map (\<lambda>v. py_eq v cliente) vs) d
          in case cliente of
               Str nome \<Rightarrow>
                 (let nome_arquivo = nome_seguro nome;
                      arquivo = os_path_join output_dir (nome_arquivo @ ''.pdf'');
                      doc = \<lparr>filename = arquivo,
                             titulo = ''Relat'' @ [CHR 0xF3] @ ''rio - '' @ nome,
                             headers = columns dados_cliente,
                             linhas = map (map py_str) (rows dados_cliente)\<rparr>
                  in if \<not> paragraph_ok rl (titulo doc) then (built, Inl ValueError)
                     else if list_ex (\<lambda>linha. list_ex (\<lambda>texto. \<not> paragraph_ok rl texto) linha)
                                     (linhas doc)
                          then (built, Inl ValueError)
                     else if \<not> build_ok rl doc then (built, Inl BuildError)
                     else (built @ [doc], Inr arquivo))
             | _ \<Rightarrow> (built, Inl TypeError)))"

fun gerar_loop ::
  "reportlab \<Rightarrow> string \<Rightarrow> dataframe \<Rightarrow> cell list \<Rightarrow> document list \<Rightarrow> string list
     \<Rightarrow> document list \<times> (py_error + string list)" where
  "gerar_loop rl output_dir d [] built arquivos_gerados = (built, Inr arquivos_gerados)"
| "gerar_loop rl output_dir d (cliente # clientes) built arquivos_gerados =
     (case criar_pdf_por_cliente rl output_dir d cliente built of
        (built', Inl e) \<Rightarrow> (built', Inl e)
      | (built', Inr arquivo) \<Rightarrow>
          gerar_loop rl output_dir d clientes built' (arquivos_gerados @ [arquivo]))"

definition gerar_pdfs_todos_clientes ::
  "reportlab \<Rightarrow> string \<Rightarrow> dataframe \<Rightarrow> document list \<times> (py_error + string list)" where
  "gerar_pdfs_todos_clientes rl output_dir d =
     (case getitem ''Cliente'' d of
        Missing \<Rightarrow> ([], Inl KeyError)
      | Frame idxs \<Rightarrow> ([], Inl AttributeError)
      | Series vs \<Rightarrow> gerar_loop rl output_dir d (unique vs) [] [])"

section \<open>Auxiliary definitions\<close>

subsection \<open>Notions the statements use\<close>

text \<open>
  A row has the header marker when one of its cells, not blank, is exactly the text
  \<open>item\<close> once lowercased and trimmed.
\<close>

definition has_item :: "cell list \<Rightarrow> bool" where
  "has_item row = list_ex (\<lambda>c. notna c \<and> strip (lower (py_str c)) = ''item'') row"

text \<open>
  The column names of the source, trimmed: the labels of the frame read with the
  header row, once the unnamed columns are dropped.
\<close>

definition nomes_fonte :: "dataframe \<Rightarrow> string list" where
  "nomes_fonte d2 = map (\<lambda>col. strip (py_str col)) (columns d2)"

text \<open>
  The values of a column at the rows where they occur for the first time, in
  row order.
\<close>

definition primeiras :: "cell list \<Rightarrow> cell list" where
  "primeiras col = [col ! i. i \<leftarrow> [0..<length col], col ! i \<notin> set (take i col)]"

text \<open>
  The document expected for a customer: the rows of the table whose \<open>Cliente\<close>
  (column 3) is that customer, in table order, under the table's header.
\<close>

definition documento :: "string \<Rightarrow> dataframe \<Rightarrow> cell \<Rightarrow> document" where
  "documento output_dir d c =
     \<lparr>filename = os_path_join output_dir (nome_seguro (py_str c) @ ''.pdf''),
      titulo = ''Relat'' @ [CHR 0xF3] @ ''rio - '' @ py_str c,
      headers = columns d,
      linhas = map (map py_str) [r \<leftarrow> rows d. r ! 3 = c]\<rparr>"

subsection \<open>Invariants and functional views used in the proofs\<close>

text \<open>
  A frame is rectangular when every row has one cell per label. \<open>cells_str L d\<close>
  says that the cells under the labels in \<open>L\<close> are text. \<open>table_ok\<close> is the shape of
  a loaded table: the eight expected labels, rectangular, \<open>Quantidade\<close> (column 7)
  numbered from 1.
\<close>

definition rect :: "dataframe \<Rightarrow> bool" where
  "rect d = list_all (\<lambda>r. length r = length (columns d)) (rows d)"

definition cells_str :: "cell set \<Rightarrow> dataframe \<Rightarrow> bool" where
  "cells_str L d = (\<forall>r \<in> set (rows d). \<forall>i < length (columns d). columns d ! i \<in> L \<longrightarrow> is_str (r ! i))"

definition table_ok :: "dataframe \<Rightarrow> bool" where
  "table_ok d = (columns d = map Str colunas_esperadas \<and> rect d
                 \<and> map (\<lambda>r. r ! 7) (rows d) = py_range 1 (len d + 1))"

text \<open>
  The frame \<open>processar_try\<close> holds just before the reindex, as a function of the
  frame \<open>d2\<close> left by dropping the unnamed columns, and the processor at that point.
\<close>

definition pipeline :: "dataframe \<Rightarrow> dataframe" where
  "pipeline d2 =
     (let d3 = d2\<lparr>columns := map (\<lambda>col. Str (strip (py_str col))) (columns d2)\<rparr>;
          d4 = select_columns [col \<leftarrow> colunas_esperadas. Str col \<in> set (columns d3)] d3;
          d6 = astype_loop (dropna_all d4)
      in assign_column (Str ''Quantidade'') (py_range 1 (len d6 + 1)) d6)"

definition st7 :: "processor \<Rightarrow> dataframe \<Rightarrow> dataframe \<Rightarrow> processor" where
  "st7 s d1 d2 =
     (let s2 = set_df d2 (set_df d1 s);
          s3 = update_df (\<lambda>d. d\<lparr>columns := map (\<lambda>col. Str (strip (py_str col))) (columns d)\<rparr>) s2;
          colunas_presentes = [col \<leftarrow> colunas_esperadas. Str col \<in> set (columns (cur s3))];
          s4 = set_df (select_columns colunas_presentes (cur s3)) s3;
          s5 = set_df (dropna_all (cur s4)) s4;
          s6 = update_df astype_loop s5
      in update_df (\<lambda>d. assign_column (Str ''Quantidade'') (py_range 1 (len d + 1)) d) s6)"

text \<open>
  The loop of \<open>filtrar_dados\<close> on frames as values, the renumbering that follows it,
  and the test a row passes to survive every active filter.
\<close>

fun apply_filters :: "dataframe \<Rightarrow> (string \<times> cell list) list \<Rightarrow> py_error + dataframe" where
  "apply_filters d [] = Inr d"
| "apply_filters d ((coluna, valor) # filtros) =
     (if valor \<noteq> [] then
        (case getitem coluna d of
           Missing \<Rightarrow> Inl KeyError
         | Frame idxs \<Rightarrow> Inl NotModelled
         | Series vs \<Rightarrow>
             apply_filters (boolean_index (map (isin (map py_str valor)) vs) d) filtros)
      else apply_filters d filtros)"

definition renum :: "dataframe \<Rightarrow> dataframe" where
  "renum d = assign_column (Str ''Quantidade'') (py_range 1 (len d + 1)) d"

definition row_ok :: "cell list \<Rightarrow> (string \<times> cell list) list \<Rightarrow> cell list \<Rightarrow> bool" where
  "row_ok cols fs r =
     list_all (\<lambda>(coluna, valor). valor = [] \<or>
        (case positions (Str coluna) cols of [j] \<Rightarrow> isin (map py_str valor) (r ! j) | _ \<Rightarrow> False)) fs"

subsection \<open>Example sheets and tables\<close>

text \<open>
  \<open>planilha\<close>: a blank row above the header, a \<open>Quantidade\<close> column with its own
  numbers. \<open>planilha_espacos\<close>: two \<open>Cliente\<close> cells that differ in a trailing blank.
  \<open>planilha_sem_cabecalho\<close>: cells that contain \<open>item\<close> inside a longer text only.
  \<open>planilha_minima\<close>: no \<open>Cidade\<close> and no \<open>Quantidade\<close> column.
  \<open>planilha_sem_cliente\<close>: no \<open>Cliente\<close> column. \<open>tabela_exemplo\<close>: a table of three
  rows for two customers, all of its texts plain.
\<close>

definition planilha :: sheet where
  "planilha = [[NaN, NaN, NaN],
               [Str ''Item'', Str ''Cliente'', Str ''Quantidade''],
               [Str ''a1'', Str ''Acme'', Num 40],
               [Str ''b2'', Str ''Beta'', Num 2]]"

definition planilha_espacos :: sheet where
  "planilha_espacos = [[Str ''Item'', Str ''Cliente''],
                       [Str ''a1'', Str ''Acme''],
                       [Str ''b2'', Str ''Acme '']]"

definition planilha_sem_cabecalho :: sheet where
  "planilha_sem_cabecalho = [[Str ''Itens'', Str ''Cliente''], [Str ''Item 1'', Str ''Acme'']]"

definition planilha_minima :: sheet where
  "planilha_minima = [[Str ''Item'', Str ''Cliente''], [Str ''a1'', Str ''Acme'']]"

definition planilha_sem_cliente :: sheet where
  "planilha_sem_cliente = [[Str ''Item'', Str ''Cidade''], [Str ''a1'', Str ''Natal'']]"

text \<open>
  An instance of the collaborator for the closed statements: a parser that refuses
  exactly the texts that hold \<open><\<close>, and a build that always succeeds. And a table
  with one customer whose name holds \<open><\<close>.
\<close>

definition reportlab_exemplo :: reportlab where
  "reportlab_exemplo =
     \<lparr>paragraph_ok = (\<lambda>texto. CHR ''<'' \<notin> set texto), build_ok = (\<lambda>doc. True)\<rparr>"

definition tabela_marcacao :: dataframe where
  "tabela_marcacao =
     \<lparr>columns = map Str colunas_esperadas,
      rows = [[Str ''a1'', Str ''c1'', Str ''m1'', Str ''A<B'', Str ''Natal'', Str ''ok'', Str ''nan'', Num 1]]\<rparr>"

definition tabela_exemplo :: dataframe where
  "tabela_exemplo =
     \<lparr>columns = map Str colunas_esperadas,
      rows = [[Str ''a1'', Str ''c1'', Str ''m1'', Str ''Acme'', Str ''Natal'', Str ''ok'', Str ''nan'', Num 1],
              [Str ''b2'', Str ''c2'', Str ''m2'', Str ''Beta'', Str ''Recife'', Str ''ok'', Str ''nan'', Num 2],
              [Str ''c3'', Str ''c3'', Str ''m3'', Str ''Acme'', Str ''Natal'', Str ''ok'', Str ''nan'', Num 3]]\<rparr>"

section \<open>Lemmas\<close>

lemma cur_set_df: "cur (set_df d s) = d"
  by (simp add: cur_def set_df_def new_frame_def)

lemma cur_update_df: "self_df s = Some r \<Longrightarrow> cur (update_df f s) = f (cur s)"
  by (simp add: cur_def update_df_def)

lemma self_df_set_df: "self_df (set_df d s) = Some (nxt s)"
  by (simp add: set_df_def new_frame_def)

lemma nxt_set_df: "nxt (set_df d s) = Suc (nxt s)"
  by (simp add: set_df_def new_frame_def)

lemma self_df_update_df: "self_df (update_df f s) = self_df s"
  by (simp add: update_df_def split: option.split)

lemma nxt_update_df: "nxt (update_df f s) = nxt s"
  by (simp add: update_df_def split: option.split)

lemma objs_set_df: "objs (set_df d s) (nxt s) = d"
  by (simp add: set_df_def new_frame_def)

lemmas df_simps = cur_set_df cur_update_df self_df_set_df nxt_set_df self_df_update_df nxt_update_df

lemma st7_props: "cur (st7 s d1 d2) = pipeline d2" "self_df (st7 s d1 d2) = Some (nxt s + 3)" "nxt (st7 s d1 d2) = nxt s + 4"
  by (simp_all add: st7_def pipeline_def Let_def df_simps)

lemma processar_try_unfold:
  "processar_try s arquivo k =
    (let d1 = read_excel_header arquivo k in
     case drop_unnamed d1 of
       Inl e \<Rightarrow> (set_df d1 s, Inl e)
     | Inr d2 \<Rightarrow>
        (case reindex_columns colunas_esperadas (cur (st7 s d1 d2)) of
           Inl e \<Rightarrow> (st7 s d1 d2, Inl e)
         | Inr d8 \<Rightarrow>
            (case validar_colunas d8 of
               Inl e \<Rightarrow> (set_df d8 (st7 s d1 d2), Inl e)
             | Inr (valido, mensagem) \<Rightarrow>
                 (set_df d8 (st7 s d1 d2),
                  Inr (if valido then (True, ''Arquivo processado com sucesso!'')
                       else (False, msg_validacao mensagem (columns d8)))))))"
  unfolding processar_try_def st7_def Let_def cur_set_df
  by (simp split: sum.split prod.split)

lemma index_of_Some: "index_of l xs = Some i \<Longrightarrow> i < length xs \<and> xs ! i = l"
  by (induction xs arbitrary: i) (auto split: if_splits)

lemma index_of_None: "index_of l xs = None \<longleftrightarrow> l \<notin> set xs"
  by (induction xs) auto

lemma index_of_append_new: "l \<notin> set xs \<Longrightarrow> index_of l (xs @ [l]) = Some (length xs)"
  by (induction xs) auto

lemma map_nth_filter: "map (\<lambda>i. xs ! i) [i \<leftarrow> [0..<length xs]. P (xs ! i)] = filter P xs"
proof -
  have "filter P (map (\<lambda>i. xs ! i) [0..<length xs]) = map (\<lambda>i. xs ! i) [i \<leftarrow> [0..<length xs]. P (xs ! i)]"
    by (simp add: filter_map comp_def)
  then show ?thesis by (simp add: map_nth)
qed

lemma rect_take_columns: "rect (take_columns idxs d)"
  by (simp add: rect_def take_columns_def list_all_iff)

lemma map_nth_positions: "map ((!) xs) (positions x xs) = [l \<leftarrow> xs. l = x]"
  using map_nth_filter[of xs "\<lambda>l. l = x"] by (simp add: positions_def)

lemma columns_select: "columns (select_columns names d) = concat (map (\<lambda>n. [l \<leftarrow> columns d. l = Str n]) names)"
  by (simp add: select_columns_def take_columns_def map_concat comp_def map_nth_positions)

lemma rect_dropna_all: "rect d \<Longrightarrow> rect (dropna_all d)"
  by (simp add: rect_def dropna_all_def list_all_iff)

lemma columns_dropna_all: "columns (dropna_all d) = columns d"
  by (simp add: dropna_all_def)

lemma columns_astype_str_column: "columns (astype_str_column c d) = columns d"
  by (simp add: astype_str_column_def)

lemma rect_astype_str_column: "rect d \<Longrightarrow> rect (astype_str_column c d)"
  by (simp add: rect_def astype_str_column_def list_all_iff)

lemma cells_str_astype_str_column:
  assumes "rect d" "cells_str L d"
  shows "cells_str (insert c L) (astype_str_column c d)"
  using assms
  by (auto simp add: cells_str_def rect_def astype_str_column_def list_all_iff is_str_def)

lemma astype_fold:
  "rect d \<Longrightarrow> cells_str L d \<Longrightarrow>
   (let d' = foldl (\<lambda>d' coluna. if coluna \<noteq> Str ''Quantidade'' then astype_str_column coluna d' else d') d ls
    in rect d' \<and> columns d' = columns d \<and> length (rows d') = length (rows d)
       \<and> cells_str (L \<union> (set ls - {Str ''Quantidade''})) d')"
proof (induction ls arbitrary: d L)
  case Nil
  then show ?case by simp
next
  case (Cons a ls)
  show ?case
  proof (cases "a = Str ''Quantidade''")
    case True
    with Cons.IH[OF Cons.prems] show ?thesis
      by (simp add: Let_def insert_Diff_if)
  next
    case False
    have r: "rect (astype_str_column a d)" using Cons.prems(1) by (rule rect_astype_str_column)
    have c: "cells_str (insert a L) (astype_str_column a d)"
      using Cons.prems by (rule cells_str_astype_str_column)
    have eq: "insert a L \<union> (set ls - {Str ''Quantidade''}) = L \<union> (set (a # ls) - {Str ''Quantidade''})"
      using False by auto
    from Cons.IH[OF r c] False show ?thesis
      by (simp add: Let_def columns_astype_str_column astype_str_column_def eq[symmetric] insert_Diff_if)
  qed
qed

lemma astype_loop_props:
  assumes "rect d"
  shows "rect (astype_loop d)" "columns (astype_loop d) = columns d"
    "length (rows (astype_loop d)) = length (rows d)"
    "cells_str (- {Str ''Quantidade''}) (astype_loop d)"
proof -
  have c0: "cells_str {} d" by (simp add: cells_str_def)
  note h = astype_fold[OF assms c0, of "columns d", unfolded Let_def, folded astype_loop_def]
  show "rect (astype_loop d)" "columns (astype_loop d) = columns d"
    "length (rows (astype_loop d)) = length (rows d)" using h by simp_all
  from h have "cells_str ({} \<union> (set (columns d) - {Str ''Quantidade''})) (astype_loop d)" by simp
  then show "cells_str (- {Str ''Quantidade''}) (astype_loop d)"
    using h by (auto simp add: cells_str_def)
qed

lemma columns_assign_column:
  "columns (assign_column c vals d) = (if c \<in> set (columns d) then columns d else columns d @ [c])"
  by (simp add: assign_column_def)

lemma length_rows_assign_column:
  "length vals = length (rows d) \<Longrightarrow> length (rows (assign_column c vals d)) = length (rows d)"
  by (simp add: assign_column_def)

lemma rect_assign_column:
  "rect d \<Longrightarrow> rect (assign_column c vals d)"
  by (auto simp add: assign_column_def rect_def list_all_iff dest!: set_zip_leftD)

lemma map_snd_zip_eq: "length xs = length ys \<Longrightarrow> map (\<lambda>(x, y). y) (zip xs ys) = ys"
  by (induction xs ys rule: list_induct2) auto

lemma column_assign_column:
  assumes "rect d" "length vals = length (rows d)"
    and "index_of c (columns (assign_column c vals d)) = Some i"
  shows "map (\<lambda>r. r ! i) (rows (assign_column c vals d)) = vals"
proof (cases "c \<in> set (columns d)")
  case True
  with assms(3) have i: "i < length (columns d)" "columns d ! i = c"
    by (auto simp add: columns_assign_column dest: index_of_Some)
  have "map (\<lambda>r. r ! i) (rows (assign_column c vals d))
        = map (\<lambda>(r, v). map (\<lambda>(l, x). if l = c then v else x) (zip (columns d) r) ! i) (zip (rows d) vals)"
    using True by (simp add: assign_column_def comp_def case_prod_unfold)
  also have "\<dots> = map (\<lambda>(r, v). v) (zip (rows d) vals)"
  proof (rule map_cong[OF refl])
    fix p assume "p \<in> set (zip (rows d) vals)"
    then have "fst p \<in> set (rows d)" by (metis prod.collapse set_zip_leftD)
    then have "length (fst p) = length (columns d)" using assms(1) by (simp add: rect_def list_all_iff)
    then show "(case p of (r, v) \<Rightarrow> map (\<lambda>(l, x). if l = c then v else x) (zip (columns d) r) ! i)
               = (case p of (r, v) \<Rightarrow> v)"
      using i by (cases p) simp
  qed
  also have "\<dots> = vals" using assms(2) by (simp add: map_snd_zip_eq)
  finally show ?thesis .
next
  case False
  with assms(3) have i: "i = length (columns d)"
    by (simp add: columns_assign_column index_of_append_new)
  have "map (\<lambda>r. r ! i) (rows (assign_column c vals d))
        = map (\<lambda>(r, v). (r @ [v]) ! i) (zip (rows d) vals)"
    using False by (simp add: assign_column_def comp_def case_prod_unfold)
  also have "\<dots> = map (\<lambda>(r, v). v) (zip (rows d) vals)"
  proof (rule map_cong[OF refl])
    fix p assume "p \<in> set (zip (rows d) vals)"
    then have "fst p \<in> set (rows d)" by (metis prod.collapse set_zip_leftD)
    then have "length (fst p) = length (columns d)" using assms(1) by (simp add: rect_def list_all_iff)
    then show "(case p of (r, v) \<Rightarrow> (r @ [v]) ! i) = (case p of (r, v) \<Rightarrow> v)"
      using i by (cases p) (simp add: nth_append)
  qed
  also have "\<dots> = vals" using assms(2) by (simp add: map_snd_zip_eq)
  finally show ?thesis .
qed

lemma cells_str_assign_column:
  assumes "rect d" "cells_str L d" "c \<notin> L"
  shows "cells_str L (assign_column c vals d)"
proof (cases "c \<in> set (columns d)")
  case True
  show ?thesis
    unfolding cells_str_def
  proof (intro ballI allI impI)
    fix r i assume r: "r \<in> set (rows (assign_column c vals d))"
      and i: "i < length (columns (assign_column c vals d))"
      and l: "columns (assign_column c vals d) ! i \<in> L"
    from r True obtain r0 v where r0: "r0 \<in> set (rows d)"
      and req: "r = map (\<lambda>(l, x). if l = c then v else x) (zip (columns d) r0)"
      by (auto simp add: assign_column_def dest: set_zip_leftD)
    from r0 assms(1) have len: "length r0 = length (columns d)" by (simp add: rect_def list_all_iff)
    from i True have i': "i < length (columns d)" by (simp add: columns_assign_column)
    from l True have l': "columns d ! i \<in> L" by (simp add: columns_assign_column)
    with assms(3) have "columns d ! i \<noteq> c" by auto
    then have "r ! i = r0 ! i" using req len i' by simp
    moreover have "is_str (r0 ! i)" using assms(2) r0 i' l' by (simp add: cells_str_def)
    ultimately show "is_str (r ! i)" by simp
  qed
next
  case False
  show ?thesis
    unfolding cells_str_def
  proof (intro ballI allI impI)
    fix r i assume r: "r \<in> set (rows (assign_column c vals d))"
      and i: "i < length (columns (assign_column c vals d))"
      and l: "columns (assign_column c vals d) ! i \<in> L"
    from r False obtain r0 v where r0: "r0 \<in> set (rows d)" and req: "r = r0 @ [v]"
      by (auto simp add: assign_column_def dest: set_zip_leftD)
    from r0 assms(1) have len: "length r0 = length (columns d)" by (simp add: rect_def list_all_iff)
    from l False assms(3) have "i \<noteq> length (columns d)"
      by (auto simp add: columns_assign_column)
    with i False have i': "i < length (columns d)" by (simp add: columns_assign_column)
    from l False i' have l': "columns d ! i \<in> L" by (simp add: columns_assign_column nth_append)
    have "r ! i = r0 ! i" using req len i' by (simp add: nth_append)
    moreover have "is_str (r0 ! i)" using assms(2) r0 i' l' by (simp add: cells_str_def)
    ultimately show "is_str (r ! i)" by simp
  qed
qed

lemma length_py_range: "length (py_range a b) = b - a"
  by (simp add: py_range_def)

lemma length_esperadas: "length colunas_esperadas = 8"
  by (simp add: colunas_esperadas_def)

lemma distinct_esperadas: "distinct colunas_esperadas"
  by (simp add: colunas_esperadas_def)

lemma quantidade_esperada: "colunas_esperadas ! 7 = ''Quantidade''" "''Quantidade'' \<in> set colunas_esperadas"
  by (simp_all add: colunas_esperadas_def)

lemma filter_eq_upt: "[i \<leftarrow> [0..<n]. i = j] = (if j < n then [j] else [])"
  by (induction n) auto

lemma positions_distinct:
  assumes "distinct xs" "j < length xs"
  shows "positions (xs ! j) xs = [j]"
proof -
  have "[i \<leftarrow> [0..<length xs]. xs ! i = xs ! j] = [i \<leftarrow> [0..<length xs]. i = j]"
    by (rule filter_cong[OF refl]) (use assms in \<open>auto simp add: nth_eq_iff_index_eq\<close>)
  then show ?thesis using assms(2) by (simp add: positions_def filter_eq_upt)
qed

lemma positions_esperadas:
  assumes "j < 8"
  shows "positions (Str (colunas_esperadas ! j)) (map Str colunas_esperadas) = [j]"
proof -
  have d: "distinct (map Str colunas_esperadas)"
    by (simp add: distinct_map distinct_esperadas inj_on_def)
  have l: "j < length (map Str colunas_esperadas)" using assms by (simp add: length_esperadas)
  from positions_distinct[OF d l] l show ?thesis by simp
qed

lemma getitem_table:
  assumes "columns d = map Str colunas_esperadas" "j < 8"
  shows "getitem (colunas_esperadas ! j) d = Series (map (\<lambda>r. r ! j) (rows d))"
  using positions_esperadas[OF assms(2)] assms(1) by (simp add: getitem_def)

lemma getitem_quantidade:
  assumes "columns d = map Str colunas_esperadas"
  shows "getitem ''Quantidade'' d = Series (map (\<lambda>r. r ! 7) (rows d))"
  using getitem_table[OF assms, of 7] by (simp add: quantidade_esperada)

lemma rect_select_columns: "rect (select_columns names d)"
  by (simp add: select_columns_def rect_take_columns)

lemma pipeline_rect: "rect (pipeline d2)"
  by (simp add: pipeline_def Let_def rect_assign_column astype_loop_props rect_dropna_all rect_select_columns)

lemma pipeline_cells: "cells_str (- {Str ''Quantidade''}) (pipeline d2)"
  by (simp add: pipeline_def Let_def cells_str_assign_column astype_loop_props rect_dropna_all rect_select_columns)

lemma pipeline_quantidade:
  assumes "index_of (Str ''Quantidade'') (columns (pipeline d2)) = Some i"
  shows "map (\<lambda>r. r ! i) (rows (pipeline d2)) = py_range 1 (len (pipeline d2) + 1)"
proof -
  define d6 where "d6 = astype_loop (dropna_all (select_columns
      [col \<leftarrow> colunas_esperadas. Str col \<in> set (map (\<lambda>col. Str (strip (py_str col))) (columns d2))]
      (d2\<lparr>columns := map (\<lambda>col. Str (strip (py_str col))) (columns d2)\<rparr>)))"
  have p: "pipeline d2 = assign_column (Str ''Quantidade'') (py_range 1 (len d6 + 1)) d6"
    by (simp add: pipeline_def Let_def d6_def)
  have r: "rect d6"
    by (simp add: d6_def astype_loop_props rect_dropna_all rect_select_columns)
  have l: "length (py_range 1 (len d6 + 1)) = length (rows d6)"
    by (simp add: length_py_range len_def)
  have "len (pipeline d2) = len d6"
    using l by (simp add: p len_def length_rows_assign_column)
  with column_assign_column[OF r l assms[unfolded p]] show ?thesis by (simp add: p)
qed

lemma pipeline_columns:
  "set (columns (pipeline d2)) =
     {Str n | n. n \<in> set colunas_esperadas \<and> n \<in> set (map (\<lambda>col. strip (py_str col)) (columns d2))}
     \<union> {Str ''Quantidade''}"
  using quantidade_esperada(2)
  by (auto simp add: pipeline_def Let_def columns_assign_column astype_loop_props rect_dropna_all
       rect_select_columns columns_dropna_all columns_select)

lemma reindex_Inr:
  assumes "reindex_columns names d = Inr d'"
  shows "distinct (columns d)" "columns d' = map Str names"
    "rows d' = map (\<lambda>r. map (\<lambda>n. case index_of (Str n) (columns d) of None \<Rightarrow> NaN | Some i \<Rightarrow> r ! i) names) (rows d)"
  using assms by (auto simp add: reindex_columns_def split: if_splits)

lemma reindex_column:
  assumes "reindex_columns colunas_esperadas d = Inr d'" "j < 8"
  shows "map (\<lambda>r. r ! j) (rows d')
         = map (\<lambda>r. case index_of (Str (colunas_esperadas ! j)) (columns d) of
                       None \<Rightarrow> NaN | Some i \<Rightarrow> r ! i) (rows d)"
  using assms(2) by (simp add: reindex_Inr(3)[OF assms(1)] length_esperadas comp_def)

lemma reindex_pipeline_table_ok:
  assumes "reindex_columns colunas_esperadas (pipeline d2) = Inr d8"
  shows "table_ok d8"
proof -
  have c: "columns d8 = map Str colunas_esperadas" by (rule reindex_Inr(2)[OF assms])
  have r: "rect d8"
    by (simp add: rect_def list_all_iff c reindex_Inr(3)[OF assms])
  have "Str ''Quantidade'' \<in> set (columns (pipeline d2))" by (simp add: pipeline_columns)
  then obtain i where i: "index_of (Str ''Quantidade'') (columns (pipeline d2)) = Some i"
    using index_of_None[of "Str ''Quantidade''" "columns (pipeline d2)"] by (cases "index_of (Str ''Quantidade'') (columns (pipeline d2))") auto
  have l: "len d8 = len (pipeline d2)" by (simp add: len_def reindex_Inr(3)[OF assms])
  have "map (\<lambda>r. r ! 7) (rows d8) = map (\<lambda>r. r ! i) (rows (pipeline d2))"
    using reindex_column[OF assms, of 7] i by (simp add: quantidade_esperada)
  also have "\<dots> = py_range 1 (len d8 + 1)" using pipeline_quantidade[OF i] l by simp
  finally show ?thesis using c r by (simp add: table_ok_def)
qed

lemma validar_colunas_table:
  assumes "columns d = map Str colunas_esperadas"
  shows "validar_colunas d = Inr (True, ''Todas as colunas est'' @ [CHR 0xE3] @ ''o presentes'')"
  using assms by (simp add: validar_colunas_def colunas_esperadas_def is_str_def py_str_def startswith_def)

lemma load_success:
  assumes "processar_arquivo s arquivo = (s', True, m)"
  shows "\<exists>k d2. header_loop 0 (read_excel_no_header arquivo) = Some k
           \<and> drop_unnamed (read_excel_header arquivo k) = Inr d2
           \<and> reindex_columns colunas_esperadas (pipeline d2) = Inr (cur s')
           \<and> self_df s' = Some (nxt s + 4) \<and> nxt s' = nxt s + 5
           \<and> m = ''Arquivo processado com sucesso!''"
  using assms
  by (auto simp add: processar_arquivo_def processar_try_unfold Let_def st7_props df_simps
           split: option.splits sum.splits prod.splits if_splits)

lemma load_ok:
  assumes "header_loop 0 (read_excel_no_header arquivo) = Some k"
    and "drop_unnamed (read_excel_header arquivo k) = Inr d2"
    and "distinct (columns (pipeline d2))"
  shows "\<exists>s' d8. processar_arquivo s arquivo = (s', True, ''Arquivo processado com sucesso!'')
           \<and> reindex_columns colunas_esperadas (pipeline d2) = Inr d8 \<and> cur s' = d8"
proof -
  obtain d8 where d8: "reindex_columns colunas_esperadas (pipeline d2) = Inr d8"
    using assms(3) by (simp add: reindex_columns_def)
  have v: "validar_colunas d8 = Inr (True, ''Todas as colunas est'' @ [CHR 0xE3] @ ''o presentes'')"
    by (rule validar_colunas_table) (rule reindex_Inr(2)[OF d8])
  show ?thesis
    using assms(1,2) d8 v
    by (simp add: processar_arquivo_def processar_try_unfold Let_def st7_props df_simps)
qed

lemma filtrar_loop_refines:
  assumes "filtrar_loop s c fs = (s', res)" "c < nxt s"
  shows "nxt s \<le> nxt s' \<and> self_df s' = self_df s \<and> (\<forall>a < nxt s. objs s' a = objs s a)
         \<and> (case apply_filters (objs s c) fs of
               Inl e \<Rightarrow> res = Inl e
             | Inr d \<Rightarrow> \<exists>r. res = Inr r \<and> r < nxt s' \<and> objs s' r = d \<and> (r = c \<or> nxt s \<le> r))"
  using assms
proof (induction s c fs arbitrary: s' res rule: filtrar_loop.induct)
  case (1 s df_filtrado)
  then show ?case by auto
next
  case (2 s df_filtrado coluna valor filtros)
  show ?case
  proof (cases "valor = []")
    case True
    with 2 show ?thesis by simp
  next
    case False
    note ne = this
    show ?thesis
    proof (cases "getitem coluna (objs s df_filtrado)")
      case Missing
      with 2 ne show ?thesis by auto
    next
      case (Frame idxs)
      with 2 ne show ?thesis by auto
    next
      case (Series vs)
      define d' where "d' = boolean_index (map (isin (map py_str valor)) vs) (objs s df_filtrado)"
      define s1 where "s1 = s\<lparr>objs := (objs s)(nxt s := d'), nxt := Suc (nxt s)\<rparr>"
      have nf: "new_frame d' s = (s1, nxt s)" by (simp add: new_frame_def s1_def)
      have run: "filtrar_loop s1 (nxt s) filtros = (s', res)"
        using "2.prems"(1) ne Series nf by (simp add: d'_def)
      have lt: "nxt s < nxt s1" by (simp add: s1_def)
      have ih: "nxt s1 \<le> nxt s' \<and> self_df s' = self_df s1 \<and> (\<forall>a < nxt s1. objs s' a = objs s1 a)
         \<and> (case apply_filters (objs s1 (nxt s)) filtros of
               Inl e \<Rightarrow> res = Inl e
             | Inr d \<Rightarrow> \<exists>r. res = Inr r \<and> r < nxt s' \<and> objs s' r = d \<and> (r = nxt s \<or> nxt s1 \<le> r))"
        using "2.IH"(1)[OF ne refl Series nf[unfolded d'_def, symmetric] refl run lt] .
      have o: "objs s1 (nxt s) = d'" by (simp add: s1_def)
      have ap: "apply_filters (objs s df_filtrado) ((coluna, valor) # filtros) = apply_filters d' filtros"
        using ne Series by (simp add: d'_def)
      have old: "\<forall>a < nxt s. objs s' a = objs s a"
        using ih by (auto simp add: s1_def)
      show ?thesis
        unfolding ap using ih old o
        by (auto simp add: s1_def split: sum.splits)
    qed
  qed
qed

lemma filtrar_dados_char:
  assumes "self_df s = Some r0" "r0 < nxt s"
  shows "\<exists>s' res. filtrar_dados s fs = (s', res) \<and> self_df s' = self_df s
           \<and> (\<forall>a < nxt s. objs s' a = objs s a)
           \<and> (case apply_filters (objs s r0) fs of
                 Inl NotModelled \<Rightarrow> res = Inl NotModelled
               | Inl e \<Rightarrow> \<exists>r. res = Inr r \<and> nxt s \<le> r \<and> r < nxt s' \<and> objs s' r = objs s r0
               | Inr d \<Rightarrow> \<exists>r. res = Inr r \<and> nxt s \<le> r \<and> r < nxt s' \<and> objs s' r = renum d)"
proof -
  define s1 where "s1 = s\<lparr>objs := (objs s)(nxt s := objs s r0), nxt := Suc (nxt s)\<rparr>"
  have nf: "new_frame (objs s r0) s = (s1, nxt s)" by (simp add: new_frame_def s1_def)
  obtain s2 res2 where run: "filtrar_loop s1 (nxt s) fs = (s2, res2)" by (cases "filtrar_loop s1 (nxt s) fs")
  have lt: "nxt s < nxt s1" by (simp add: s1_def)
  note h = filtrar_loop_refines[OF run lt]
  have o: "objs s1 (nxt s) = objs s r0" by (simp add: s1_def)
  have self: "self_df s2 = self_df s" using h by (simp add: s1_def)
  have old: "\<forall>a < nxt s. objs s2 a = objs s a" using h by (auto simp add: s1_def)
  have fd: "filtrar_dados s fs =
      (case (s2, res2) of
               (s2, Inl NotModelled) \<Rightarrow> (s2, Inl NotModelled)
             | (s2, Inl e) \<Rightarrow> (let (s3, c) = new_frame (objs s2 r0) s2 in (s3, Inr c))
             | (s2, Inr res) \<Rightarrow>
                 (s2\<lparr>objs := (objs s2)(res := assign_column (Str ''Quantidade'')
                                                 (py_range 1 (len (objs s2 res) + 1)) (objs s2 res))\<rparr>,
                  Inr res))"
    using assms(1) nf run by (simp add: filtrar_dados_def)
  show ?thesis
  proof (cases "apply_filters (objs s r0) fs")
    case (Inl e)
    with h o have r2: "res2 = Inl e" by simp
    show ?thesis
    proof (cases "e = NotModelled")
      case True
      then show ?thesis using fd r2 Inl self old by simp
    next
      case False
      then have "filtrar_dados s fs = (s2\<lparr>objs := (objs s2)(nxt s2 := objs s2 r0), nxt := Suc (nxt s2)\<rparr>, Inr (nxt s2))"
        using fd r2 by (cases e) (simp_all add: new_frame_def)
      moreover have "nxt s \<le> nxt s2" using h lt by simp
      moreover have "objs s2 r0 = objs s r0" using old assms(2) by simp
      ultimately show ?thesis using Inl False self old by (cases e) auto
    qed
  next
    case (Inr d)
    with h o obtain r where r: "res2 = Inr r" "r < nxt s2" "objs s2 r = d" "r = nxt s \<or> nxt s1 \<le> r"
      by auto
    have ge: "nxt s \<le> r" using r(4) lt by auto
    have "filtrar_dados s fs = (s2\<lparr>objs := (objs s2)(r := renum d)\<rparr>, Inr r)"
      using fd r by (simp add: renum_def)
    then show ?thesis using Inr self old ge r(2) by auto
  qed
qed

lemma boolean_index_filter:
  "map fst (filter snd (zip xs (map P xs))) = filter P xs"
  by (induction xs) auto

lemma positions_notin: "x \<notin> set xs \<Longrightarrow> positions x xs = []"
  by (auto simp add: positions_def filter_empty_conv)

lemma positions_distinct_cases:
  assumes "distinct xs"
  shows "(x \<notin> set xs \<and> positions x xs = []) \<or> (\<exists>j < length xs. xs ! j = x \<and> positions x xs = [j])"
proof (cases "x \<in> set xs")
  case True
  then obtain j where "j < length xs" "xs ! j = x" by (auto simp add: in_set_conv_nth)
  with positions_distinct[OF assms, of j] show ?thesis by auto
next
  case False
  then show ?thesis by (simp add: positions_notin)
qed

lemma row_ok_simps:
  "row_ok cols [] = (\<lambda>r. True)"
  "row_ok cols ((coluna, valor) # fs) =
     (\<lambda>r. (valor = [] \<or> (case positions (Str coluna) cols of [j] \<Rightarrow> isin (map py_str valor) (r ! j) | _ \<Rightarrow> False))
      \<and> row_ok cols fs r)"
  by (simp_all add: row_ok_def fun_eq_iff)

lemma apply_filters_distinct:
  assumes "distinct (columns d)"
  shows "case apply_filters d fs of
           Inl e \<Rightarrow> e = KeyError
         | Inr d' \<Rightarrow> columns d' = columns d \<and> rows d' = filter (row_ok (columns d) fs) (rows d)"
  using assms
proof (induction d fs rule: apply_filters.induct)
  case (1 d)
  then show ?case by (simp add: row_ok_simps)
next
  case (2 d coluna valor filtros)
  show ?case
  proof (cases "valor = []")
    case True
    with 2 show ?thesis by (simp add: row_ok_simps split: sum.splits)
  next
    case False
    from positions_distinct_cases[OF "2.prems", of "Str coluna"]
    show ?thesis
    proof
      assume "Str coluna \<notin> set (columns d) \<and> positions (Str coluna) (columns d) = []"
      then show ?thesis using False by (simp add: getitem_def)
    next
      assume "\<exists>j<length (columns d). columns d ! j = Str coluna \<and> positions (Str coluna) (columns d) = [j]"
      then obtain j where j: "positions (Str coluna) (columns d) = [j]" by auto
      define d' where "d' = boolean_index (map (isin (map py_str valor)) (map (\<lambda>r. r ! j) (rows d))) d"
      have g: "getitem coluna d = Series (map (\<lambda>r. r ! j) (rows d))" using j by (simp add: getitem_def)
      have c': "columns d' = columns d" by (simp add: d'_def boolean_index_def)
      have r': "rows d' = filter (\<lambda>r. isin (map py_str valor) (r ! j)) (rows d)"
        using boolean_index_filter[of "rows d" "\<lambda>r. isin (map py_str valor) (r ! j)"]
        by (simp add: d'_def boolean_index_def comp_def)
      have ih: "case apply_filters d' filtros of
           Inl e \<Rightarrow> e = KeyError
         | Inr d'' \<Rightarrow> columns d'' = columns d' \<and> rows d'' = filter (row_ok (columns d') filtros) (rows d')"
      proof -
        have dd: "distinct (columns d')" using c' "2.prems" by simp
        show ?thesis using "2.IH"(1)[OF False g dd[unfolded d'_def], folded d'_def] .
      qed
      have ap: "apply_filters d ((coluna, valor) # filtros) = apply_filters d' filtros"
        using False g by (simp add: d'_def)
      show ?thesis
        unfolding ap using ih c' r' j False
        by (auto simp add: row_ok_simps split: sum.splits intro!: filter_cong)
    qed
  qed
qed

lemma index_of_quantidade: "index_of (Str ''Quantidade'') (map Str colunas_esperadas) = Some 7"
  by (simp add: colunas_esperadas_def)

lemma renum_table:
  assumes "columns d = map Str colunas_esperadas" "rect d"
  shows "table_ok (renum d)" "len (renum d) = len d"
proof -
  have q: "Str ''Quantidade'' \<in> set (columns d)" using assms(1) quantidade_esperada(2) by simp
  have c: "columns (renum d) = map Str colunas_esperadas"
    using q assms(1) by (simp add: renum_def columns_assign_column)
  have l: "length (py_range 1 (len d + 1)) = length (rows d)" by (simp add: length_py_range len_def)
  show n: "len (renum d) = len d"
    using l by (simp add: renum_def len_def length_rows_assign_column)
  have i: "index_of (Str ''Quantidade'') (columns (assign_column (Str ''Quantidade'') (py_range 1 (len d + 1)) d)) = Some 7"
    using c index_of_quantidade by (simp add: renum_def)
  have "map (\<lambda>r. r ! 7) (rows (renum d)) = py_range 1 (len d + 1)"
    using column_assign_column[OF assms(2) l i] by (simp add: renum_def)
  then show "table_ok (renum d)"
    using c n rect_assign_column[OF assms(2)] by (simp add: table_ok_def renum_def)
qed

lemma quantidade_position:
  assumes "j < 8" "map Str colunas_esperadas ! j = Str ''Quantidade''"
  shows "j = 7"
proof -
  have d: "distinct (map Str colunas_esperadas)"
    by (simp add: distinct_map distinct_esperadas inj_on_def)
  have "map Str colunas_esperadas ! j = map Str colunas_esperadas ! 7"
    using assms(2) by (simp add: quantidade_esperada length_esperadas)
  moreover have "j < length (map Str colunas_esperadas)" "7 < length (map Str colunas_esperadas)"
    using assms(1) by (simp_all add: length_esperadas)
  ultimately show ?thesis
    using d nth_eq_iff_index_eq by blast
qed

lemma table_quantidade_num:
  assumes "table_ok d" "r \<in> set (rows d)"
  shows "\<not> is_str (r ! 7)"
proof -
  have "r ! 7 \<in> set (map (\<lambda>r. r ! 7) (rows d))" using assms(2) by simp
  moreover have "map (\<lambda>r. r ! 7) (rows d) = py_range 1 (len d + 1)" using assms(1) by (simp add: table_ok_def)
  ultimately have "r ! 7 \<in> set (py_range 1 (len d + 1))" by simp
  then show ?thesis by (auto simp add: py_range_def is_str_def)
qed

lemma assign_column_same:
  assumes "rect d" "c \<in> set (columns d)" "length vals = length (rows d)"
    and "\<And>k i. k < length (rows d) \<Longrightarrow> i < length (columns d) \<Longrightarrow> columns d ! i = c
              \<Longrightarrow> rows d ! k ! i = vals ! k"
  shows "assign_column c vals d = d"
proof -
  have "map (\<lambda>(r, v). map (\<lambda>(l, x). if l = c then v else x) (zip (columns d) r)) (zip (rows d) vals) = rows d"
  proof (rule nth_equalityI)
    show "length (map (\<lambda>(r, v). map (\<lambda>(l, x). if l = c then v else x) (zip (columns d) r)) (zip (rows d) vals)) = length (rows d)"
      using assms(3) by simp
  next
    fix k assume "k < length (map (\<lambda>(r, v). map (\<lambda>(l, x). if l = c then v else x) (zip (columns d) r)) (zip (rows d) vals))"
    then have k: "k < length (rows d)" using assms(3) by simp
    then have len: "length (rows d ! k) = length (columns d)"
      using assms(1) by (simp add: rect_def list_all_length)
    have "map (\<lambda>(l, x). if l = c then vals ! k else x) (zip (columns d) (rows d ! k)) = rows d ! k"
    proof (rule nth_equalityI)
      show "length (map (\<lambda>(l, x). if l = c then vals ! k else x) (zip (columns d) (rows d ! k))) = length (rows d ! k)"
        using len by simp
    next
      fix i assume "i < length (map (\<lambda>(l, x). if l = c then vals ! k else x) (zip (columns d) (rows d ! k)))"
      then have i: "i < length (columns d)" using len by simp
      then show "map (\<lambda>(l, x). if l = c then vals ! k else x) (zip (columns d) (rows d ! k)) ! i = rows d ! k ! i"
        using len assms(4)[OF k i] by simp
    qed
    then show "map (\<lambda>(r, v). map (\<lambda>(l, x). if l = c then v else x) (zip (columns d) r)) (zip (rows d) vals) ! k = rows d ! k"
      using k assms(3) by simp
  qed
  then show ?thesis using assms(2) by (simp add: assign_column_def)
qed

lemma renum_same:
  assumes "table_ok d"
  shows "renum d = d"
  unfolding renum_def
proof (rule assign_column_same)
  show "rect d" using assms by (simp add: table_ok_def)
  show "Str ''Quantidade'' \<in> set (columns d)"
    using assms quantidade_esperada(2) by (simp add: table_ok_def)
  show "length (py_range 1 (len d + 1)) = length (rows d)" by (simp add: length_py_range len_def)
next
  fix k i assume k: "k < length (rows d)" and i: "i < length (columns d)"
    and q: "columns d ! i = Str ''Quantidade''"
  have "i = 7" using i q assms quantidade_position[of i] by (simp add: table_ok_def length_esperadas)
  moreover have "map (\<lambda>r. r ! 7) (rows d) ! k = py_range 1 (len d + 1) ! k"
    using assms by (simp add: table_ok_def)
  ultimately show "rows d ! k ! i = py_range 1 (len d + 1) ! k" using k by simp
qed

lemma distinct_table: "table_ok d \<Longrightarrow> distinct (columns d)"
  by (simp add: table_ok_def distinct_map distinct_esperadas inj_on_def)

lemma apply_filters_status:
  assumes "columns d = columns d'" "distinct (columns d)"
  shows "isl (apply_filters d fs) = isl (apply_filters d' fs)"
  using assms
proof (induction d fs arbitrary: d' rule: apply_filters.induct)
  case (1 d)
  then show ?case by simp
next
  case (2 d coluna valor filtros)
  show ?case
  proof (cases "valor = []")
    case True
    with 2 show ?thesis by simp
  next
    case False
    from positions_distinct_cases[OF "2.prems"(2), of "Str coluna"]
    show ?thesis
    proof
      assume "Str coluna \<notin> set (columns d) \<and> positions (Str coluna) (columns d) = []"
      then show ?thesis using False "2.prems"(1) by (simp add: getitem_def)
    next
      assume "\<exists>j<length (columns d). columns d ! j = Str coluna \<and> positions (Str coluna) (columns d) = [j]"
      then obtain j where j: "positions (Str coluna) (columns d) = [j]" by auto
      have g: "getitem coluna d = Series (map (\<lambda>r. r ! j) (rows d))" using j by (simp add: getitem_def)
      have g': "getitem coluna d' = Series (map (\<lambda>r. r ! j) (rows d'))"
        using j "2.prems"(1) by (simp add: getitem_def)
      define e where "e = boolean_index (map (isin (map py_str valor)) (map (\<lambda>r. r ! j) (rows d))) d"
      define e' where "e' = boolean_index (map (isin (map py_str valor)) (map (\<lambda>r. r ! j) (rows d'))) d'"
      have c: "columns e = columns e'" using "2.prems"(1) by (simp add: e_def e'_def boolean_index_def)
      have dd: "distinct (columns e)" using "2.prems"(2) by (simp add: e_def boolean_index_def)
      have "isl (apply_filters e filtros) = isl (apply_filters e' filtros)"
        using "2.IH"(1)[OF False g, folded e_def, OF c dd] .
      then show ?thesis using False g g' by (simp add: e_def e'_def)
    qed
  qed
qed

lemma row_ok_cong:
  assumes "row_ok cols fs r" "\<not> is_str (r ! q)"
    and "\<And>j. j < length cols \<Longrightarrow> j \<noteq> q \<Longrightarrow> r' ! j = r ! j"
  shows "row_ok cols fs r'"
  unfolding row_ok_def list_all_iff
proof (intro ballI)
  fix f assume f: "f \<in> set fs"
  obtain coluna valor where fv: "f = (coluna, valor)" by (cases f)
  from assms(1) f fv have h: "valor = [] \<or> (case positions (Str coluna) cols of
        [j] \<Rightarrow> isin (map py_str valor) (r ! j) | _ \<Rightarrow> False)"
    by (auto simp add: row_ok_def list_all_iff)
  show "case f of (coluna, valor) \<Rightarrow> valor = [] \<or> (case positions (Str coluna) cols of
        [j] \<Rightarrow> isin (map py_str valor) (r' ! j) | _ \<Rightarrow> False)"
  proof (cases "valor = []")
    case True
    then show ?thesis using fv by simp
  next
    case False
    with h obtain j where j: "positions (Str coluna) cols = [j]" "isin (map py_str valor) (r ! j)"
      by (auto split: list.splits)
    have "j \<in> set (positions (Str coluna) cols)" using j(1) by simp
    then have jl: "j < length cols" by (simp add: positions_def)
    have "j \<noteq> q" using j(2) assms(2) by (auto simp add: isin_def is_str_def split: cell.splits)
    then have "r' ! j = r ! j" using assms(3) jl by simp
    then show ?thesis using fv j by simp
  qed
qed

lemma assign_column_rows_elem:
  assumes "rect d" "c \<in> set (columns d)" "r' \<in> set (rows (assign_column c vals d))"
  shows "\<exists>r \<in> set (rows d). \<forall>i < length (columns d). columns d ! i \<noteq> c \<longrightarrow> r' ! i = r ! i"
proof -
  from assms(2,3) obtain r v where r: "r \<in> set (rows d)"
    and req: "r' = map (\<lambda>(l, x). if l = c then v else x) (zip (columns d) r)"
    by (auto simp add: assign_column_def dest: set_zip_leftD)
  from r assms(1) have len: "length r = length (columns d)" by (simp add: rect_def list_all_iff)
  have "\<forall>i < length (columns d). columns d ! i \<noteq> c \<longrightarrow> r' ! i = r ! i"
    using req len by simp
  with r show ?thesis by blast
qed

lemma apply_filters_table:
  assumes "table_ok T" "apply_filters T fs = Inr d"
  shows "columns d = map Str colunas_esperadas" "rect d" "rows d = filter (row_ok (columns T) fs) (rows T)"
proof -
  from apply_filters_distinct[OF distinct_table[OF assms(1)], of fs] assms(2)
  have c: "columns d = columns T" and r: "rows d = filter (row_ok (columns T) fs) (rows T)" by simp_all
  show "columns d = map Str colunas_esperadas" using c assms(1) by (simp add: table_ok_def)
  show "rows d = filter (row_ok (columns T) fs) (rows T)" by (rule r)
  show "rect d" using assms(1) c r by (simp add: table_ok_def rect_def list_all_iff)
qed

lemma apply_filters_renum:
  assumes "table_ok T" "apply_filters T fs = Inr d"
  shows "apply_filters (renum d) fs = Inr (renum d)"
proof -
  note dp = apply_filters_table[OF assms]
  have tR: "table_ok (renum d)" using renum_table(1)[OF dp(1,2)] .
  have cT: "columns T = map Str colunas_esperadas" using assms(1) by (simp add: table_ok_def)
  have cR: "columns (renum d) = columns T" using tR cT by (simp add: table_ok_def)
  have "isl (apply_filters (renum d) fs) = isl (apply_filters T fs)"
    by (rule apply_filters_status[OF cR distinct_table[OF tR]])
  then obtain d2 where d2: "apply_filters (renum d) fs = Inr d2"
    using assms(2) by (cases "apply_filters (renum d) fs") auto
  from apply_filters_distinct[OF distinct_table[OF tR], of fs] d2
  have c2: "columns d2 = columns (renum d)"
    and r2: "rows d2 = filter (row_ok (columns (renum d)) fs) (rows (renum d))" by simp_all
  have all: "\<forall>r' \<in> set (rows (renum d)). row_ok (columns (renum d)) fs r'"
  proof
    fix r' assume r': "r' \<in> set (rows (renum d))"
    have q: "Str ''Quantidade'' \<in> set (columns d)" using dp(1) quantidade_esperada(2) by simp
    from assign_column_rows_elem[OF dp(2) q r'[unfolded renum_def]]
    obtain r where r: "r \<in> set (rows d)"
      and same: "\<forall>i < length (columns d). columns d ! i \<noteq> Str ''Quantidade'' \<longrightarrow> r' ! i = r ! i" by blast
    from r dp(3) have rT: "r \<in> set (rows T)" and ok: "row_ok (columns T) fs r" by simp_all
    have num: "\<not> is_str (r ! 7)" by (rule table_quantidade_num[OF assms(1) rT])
    have "row_ok (columns T) fs r'"
    proof (rule row_ok_cong[OF ok num])
      fix j assume j: "j < length (columns T)" "j \<noteq> 7"
      then have j8: "j < 8" using cT by (simp add: length_esperadas)
      have "columns d ! j \<noteq> Str ''Quantidade''"
        using quantidade_position[OF j8] j(2) dp(1) by auto
      then show "r' ! j = r ! j" using same j8 dp(1) by (simp add: length_esperadas)
    qed
    then show "row_ok (columns (renum d)) fs r'" using cR by simp
  qed
  have "rows d2 = rows (renum d)" using r2 all by simp
  with c2 have "d2 = renum d" by simp
  with d2 show ?thesis by simp
qed

lemma load_table:
  assumes "processar_arquivo s arquivo = (s', True, m)"
  shows "self_df s' = Some (nxt s + 4)" "nxt s + 4 < nxt s'" "table_ok (objs s' (nxt s + 4))"
    "cur s' = objs s' (nxt s + 4)"
proof -
  from load_success[OF assms] obtain k d2 where
    r: "reindex_columns colunas_esperadas (pipeline d2) = Inr (cur s')"
    and sd: "self_df s' = Some (nxt s + 4)" and n: "nxt s' = nxt s + 5" by blast
  show "self_df s' = Some (nxt s + 4)" by (rule sd)
  show "nxt s + 4 < nxt s'" using n by simp
  show c: "cur s' = objs s' (nxt s + 4)" using sd by (simp add: cur_def)
  show "table_ok (objs s' (nxt s + 4))" using reindex_pipeline_table_ok[OF r] c by simp
qed

lemma filtrar_dados_table:
  assumes "self_df s = Some r0" "r0 < nxt s" "table_ok (objs s r0)"
  shows "\<exists>s' r. filtrar_dados s fs = (s', Inr r) \<and> self_df s' = self_df s
           \<and> (\<forall>a < nxt s. objs s' a = objs s a) \<and> nxt s \<le> r \<and> r < nxt s'
           \<and> table_ok (objs s' r)
           \<and> (case apply_filters (objs s r0) fs of
                 Inl e \<Rightarrow> objs s' r = objs s r0
               | Inr d \<Rightarrow> objs s' r = renum d)"
proof -
  from filtrar_dados_char[OF assms(1,2), of fs] obtain s' res where
    f: "filtrar_dados s fs = (s', res)" and sd: "self_df s' = self_df s"
    and old: "\<forall>a < nxt s. objs s' a = objs s a"
    and c: "case apply_filters (objs s r0) fs of
                 Inl NotModelled \<Rightarrow> res = Inl NotModelled
               | Inl e \<Rightarrow> \<exists>r. res = Inr r \<and> nxt s \<le> r \<and> r < nxt s' \<and> objs s' r = objs s r0
               | Inr d \<Rightarrow> \<exists>r. res = Inr r \<and> nxt s \<le> r \<and> r < nxt s' \<and> objs s' r = renum d"
    by blast
  show ?thesis
  proof (cases "apply_filters (objs s r0) fs")
    case (Inl e)
    with apply_filters_distinct[OF distinct_table[OF assms(3)], of fs] have "e = KeyError" by simp
    with c Inl obtain r where "res = Inr r" "nxt s \<le> r" "r < nxt s'" "objs s' r = objs s r0" by auto
    then show ?thesis using f sd old Inl assms(3) by auto
  next
    case (Inr d)
    with c obtain r where r: "res = Inr r" "nxt s \<le> r" "r < nxt s'" "objs s' r = renum d" by auto
    note dp = apply_filters_table[OF assms(3) Inr]
    have "table_ok (renum d)" using renum_table(1)[OF dp(1,2)] .
    then show ?thesis using f sd old Inr r by auto
  qed
qed

lemma planilha_loads:
  "processar_arquivo init planilha
     = (fst (processar_arquivo init planilha), True, snd (snd (processar_arquivo init planilha)))"
proof -
  have "fst (snd (processar_arquivo init planilha)) = True"
    unfolding planilha_def by code_simp
  then show ?thesis by (metis prod.collapse)
qed

lemma has_item_row_values:
  "(''item'' \<in> set [strip (lower (py_str val)). val \<leftarrow> row, notna val]) = has_item row"
  by (induction row) (auto simp add: has_item_def)

lemma header_loop_char:
  "header_loop i g = Some k \<longleftrightarrow>
     i \<le> k \<and> k - i < length g \<and> has_item (g ! (k - i)) \<and> (\<forall>j < k - i. \<not> has_item (g ! j))"
proof (induction g arbitrary: i)
  case Nil
  then show ?case by simp
next
  case (Cons row g)
  show ?case
  proof (cases "has_item row")
    case True
    have "header_loop i (row # g) = Some i"
      using True by (simp only: header_loop.simps Let_def has_item_row_values) simp
    moreover have "(i \<le> k \<and> k - i < length (row # g) \<and> has_item ((row # g) ! (k - i))
                 \<and> (\<forall>j < k - i. \<not> has_item ((row # g) ! j))) \<longleftrightarrow> k = i"
    proof
      assume a: "i \<le> k \<and> k - i < length (row # g) \<and> has_item ((row # g) ! (k - i))
                 \<and> (\<forall>j < k - i. \<not> has_item ((row # g) ! j))"
      show "k = i"
      proof (rule ccontr)
        assume "k \<noteq> i"
        with a have "0 < k - i" by simp
        with a have "\<not> has_item ((row # g) ! 0)" by blast
        with True show False by simp
      qed
    next
      assume "k = i"
      then show "i \<le> k \<and> k - i < length (row # g) \<and> has_item ((row # g) ! (k - i))
                 \<and> (\<forall>j < k - i. \<not> has_item ((row # g) ! j))"
        using True by simp
    qed
    ultimately show ?thesis by auto
  next
    case False
    have "header_loop i (row # g) = Some k \<longleftrightarrow> header_loop (Suc i) g = Some k"
      using False by (simp only: header_loop.simps Let_def has_item_row_values) simp
    also have "\<dots> \<longleftrightarrow> Suc i \<le> k \<and> k - Suc i < length g \<and> has_item (g ! (k - Suc i))
                 \<and> (\<forall>j < k - Suc i. \<not> has_item (g ! j))"
      by (rule Cons.IH)
    also have "\<dots> \<longleftrightarrow> i \<le> k \<and> k - i < length (row # g) \<and> has_item ((row # g) ! (k - i))
                 \<and> (\<forall>j < k - i. \<not> has_item ((row # g) ! j))"
    proof (cases "k \<le> i")
      case True
      then show ?thesis using False by auto
    next
      case gt: False
      then obtain n where n: "k - i = Suc n" "k - Suc i = n" by (cases "k - i") auto
      have "(\<forall>j < Suc n. \<not> has_item ((row # g) ! j)) \<longleftrightarrow> (\<forall>j < n. \<not> has_item (g ! j))"
        using False by (auto simp add: less_Suc_eq_0_disj)
      then show ?thesis using gt n by auto
    qed
    finally show ?thesis .
  qed
qed

lemma has_item_pad_row: "has_item (r @ replicate n NaN) = has_item r"
  by (auto simp add: has_item_def notna_def list_ex_iff)

lemma length_pad: "length (pad g) = length g"
  by (simp add: pad_def Let_def)

lemma nth_pad: "k < length g \<Longrightarrow> \<exists>n. pad g ! k = g ! k @ replicate n NaN"
  by (auto simp add: pad_def Let_def)

lemma has_item_pad: "k < length g \<Longrightarrow> has_item (pad g ! k) = has_item (g ! k)"
  using nth_pad[of k g] by (auto simp add: has_item_pad_row)

lemma planilha_rows:
  "1 < length planilha \<and> has_item (planilha ! 1) \<and> (\<forall>j < 1. \<not> has_item (planilha ! j))"
proof -
  have "has_item (planilha ! 1)" unfolding planilha_def has_item_def by code_simp
  moreover have "\<not> has_item (planilha ! 0)" unfolding planilha_def has_item_def by code_simp
  moreover have "1 < length planilha" by (simp add: planilha_def)
  ultimately show ?thesis by simp
qed

lemma sem_cabecalho_rows: "\<forall>row \<in> set planilha_sem_cabecalho. \<not> has_item row"
  unfolding planilha_sem_cabecalho_def has_item_def by code_simp

lemma pipeline_columns_nomes:
  "Str n \<in> set (columns (pipeline d2)) \<longleftrightarrow>
     (n \<in> set colunas_esperadas \<and> n \<in> set (nomes_fonte d2)) \<or> n = ''Quantidade''"
  by (auto simp add: pipeline_columns nomes_fonte_def)

lemma load_cells:
  assumes "reindex_columns colunas_esperadas (pipeline d2) = Inr d8" "j < 7"
  shows "if colunas_esperadas ! j \<in> set (nomes_fonte d2)
         then list_all is_str (map (\<lambda>r. r ! j) (rows d8))
         else map (\<lambda>r. r ! j) (rows d8) = replicate (len d8) NaN"
proof -
  define n where "n = colunas_esperadas ! j"
  have j8: "j < 8" using assms(2) by simp
  have nq: "n \<noteq> ''Quantidade''"
    using quantidade_position[OF j8] assms(2) by (auto simp add: n_def length_esperadas)
  have ne: "n \<in> set colunas_esperadas" using j8 by (simp add: n_def length_esperadas)
  have col: "map (\<lambda>r. r ! j) (rows d8)
         = map (\<lambda>r. case index_of (Str n) (columns (pipeline d2)) of
                       None \<Rightarrow> NaN | Some i \<Rightarrow> r ! i) (rows (pipeline d2))"
    using reindex_column[OF assms(1) j8] by (simp add: n_def)
  have l: "len d8 = len (pipeline d2)" by (simp add: len_def reindex_Inr(3)[OF assms(1)])
  show ?thesis
  proof (cases "n \<in> set (nomes_fonte d2)")
    case True
    then have "Str n \<in> set (columns (pipeline d2))" using ne by (simp add: pipeline_columns_nomes)
    then obtain i where i: "index_of (Str n) (columns (pipeline d2)) = Some i"
      using index_of_None[of "Str n" "columns (pipeline d2)"]
      by (cases "index_of (Str n) (columns (pipeline d2))") auto
    from index_of_Some[OF i] have il: "i < length (columns (pipeline d2))"
      and ic: "columns (pipeline d2) ! i = Str n" by simp_all
    have "\<forall>r \<in> set (rows (pipeline d2)). is_str (r ! i)"
      using pipeline_cells[of d2] il ic nq by (simp add: cells_str_def)
    then show ?thesis using True col i by (simp add: n_def[symmetric] list_all_iff)
  next
    case False
    then have "Str n \<notin> set (columns (pipeline d2))" using nq by (simp add: pipeline_columns_nomes)
    then have "index_of (Str n) (columns (pipeline d2)) = None" by (simp add: index_of_None)
    then show ?thesis using False col l by (simp add: n_def[symmetric] map_replicate_const len_def)
  qed
qed

lemma filter_map_Str: "[l \<leftarrow> map Str xs. l = Str n] = map Str [c \<leftarrow> xs. c = n]"
  by (induction xs) auto

lemma pipeline_distinct:
  assumes "distinct [c \<leftarrow> nomes_fonte d2. c \<in> set colunas_esperadas]"
  shows "distinct (columns (pipeline d2))"
proof -
  define names where "names = nomes_fonte d2"
  define pres where "pres = [col \<leftarrow> colunas_esperadas. col \<in> set names]"
  define cols4 where "cols4 = concat (map (\<lambda>n. map Str [c \<leftarrow> names. c = n]) pres)"
  have c3: "map (\<lambda>col. Str (strip (py_str col))) (columns d2) = map Str names"
    by (simp add: names_def nomes_fonte_def)
  define d3 where "d3 = d2\<lparr>columns := map (\<lambda>col. Str (strip (py_str col))) (columns d2)\<rparr>"
  define d6 where "d6 = astype_loop (dropna_all (select_columns
                          [col \<leftarrow> colunas_esperadas. Str col \<in> set (columns d3)] d3))"
  have p: "pipeline d2 = assign_column (Str ''Quantidade'') (py_range 1 (len d6 + 1)) d6"
    by (simp add: pipeline_def Let_def d6_def d3_def)
  have cd3: "columns d3 = map Str names" using c3 by (simp add: d3_def)
  have pres_eq: "[col \<leftarrow> colunas_esperadas. Str col \<in> set (columns d3)] = pres"
    unfolding cd3 pres_def by (rule filter_cong) auto
  have "columns d6 = columns (select_columns pres d3)"
    unfolding d6_def pres_eq
    by (simp add: astype_loop_props rect_dropna_all rect_select_columns columns_dropna_all)
  also have "\<dots> = concat (map (\<lambda>n. [l \<leftarrow> map Str names. l = Str n]) pres)"
    unfolding columns_select cd3 ..
  also have "\<dots> = cols4"
    unfolding cols4_def filter_map_Str ..
  finally have c6: "columns d6 = cols4" .
  have cols: "columns (pipeline d2)
              = (if Str ''Quantidade'' \<in> set cols4 then cols4 else cols4 @ [Str ''Quantidade''])"
    unfolding p columns_assign_column c6 ..
  have one: "\<And>n. n \<in> set pres \<Longrightarrow> distinct [c \<leftarrow> names. c = n]"
  proof -
    fix n assume "n \<in> set pres"
    then have ne: "n \<in> set colunas_esperadas" by (simp add: pres_def)
    have "[c \<leftarrow> names. c = n] = [c \<leftarrow> [c \<leftarrow> names. c \<in> set colunas_esperadas]. c = n]"
      using ne by (auto intro: filter_cong)
    moreover have "distinct [c \<leftarrow> [c \<leftarrow> names. c \<in> set colunas_esperadas]. c = n]"
      using assms unfolding names_def by (rule distinct_filter)
    ultimately show "distinct [c \<leftarrow> names. c = n]" by simp
  qed
  have dp: "distinct pres" by (simp add: pres_def distinct_esperadas)
  have "distinct cols4"
    unfolding cols4_def
  proof (rule distinct_concat)
    show "distinct (map (\<lambda>n. map Str [c \<leftarrow> names. c = n]) pres)"
    proof (simp add: distinct_map dp, rule inj_onI)
      fix x y assume x: "x \<in> set pres" and y: "y \<in> set pres"
        and eq: "map Str [c \<leftarrow> names. c = x] = map Str [c \<leftarrow> names. c = y]"
      from x have "x \<in> set [c \<leftarrow> names. c = x]" by (simp add: pres_def)
      then have "Str x \<in> set (map Str [c \<leftarrow> names. c = x])" by simp
      with eq have "Str x \<in> set (map Str [c \<leftarrow> names. c = y])" by simp
      then show "x = y" by auto
    qed
  next
    fix ys assume "ys \<in> set (map (\<lambda>n. map Str [c \<leftarrow> names. c = n]) pres)"
    then show "distinct ys" using one by (auto simp add: distinct_map inj_on_def)
  next
    fix ys zs assume "ys \<in> set (map (\<lambda>n. map Str [c \<leftarrow> names. c = n]) pres)"
      "zs \<in> set (map (\<lambda>n. map Str [c \<leftarrow> names. c = n]) pres)" "ys \<noteq> zs"
    then show "set ys \<inter> set zs = {}" by auto
  qed
  then show ?thesis by (simp add: cols)
qed

lemma planilha_minima_header:
  "header_loop 0 (read_excel_no_header planilha_minima) = Some 0"
  unfolding planilha_minima_def by code_simp

lemma planilha_minima_frame:
  "drop_unnamed (read_excel_header planilha_minima 0)
     = Inr \<lparr>columns = [Str ''Item'', Str ''Cliente''], rows = [[Str ''a1'', Str ''Acme'']]\<rparr>"
  unfolding planilha_minima_def by code_simp

lemma planilha_minima_nomes:
  "distinct [c \<leftarrow> nomes_fonte \<lparr>columns = [Str ''Item'', Str ''Cliente''], rows = [[Str ''a1'', Str ''Acme'']]\<rparr>.
             c \<in> set colunas_esperadas]"
  by code_simp

lemma unique_loop_char:
  "unique_loop seen vs
     = [vs ! i. i \<leftarrow> [0..<length vs], vs ! i \<notin> set seen \<and> vs ! i \<notin> set (take i vs)]"
proof (induction vs arbitrary: seen)
  case Nil
  then show ?case by simp
next
  case (Cons v vs)
  have upt: "[0..<length (v # vs)] = 0 # map Suc [0..<length vs]"
    by (simp add: upt_conv_Cons map_Suc_upt del: upt_Suc)
  have rest: "[(v # vs) ! i. i \<leftarrow> map Suc [0..<length vs],
                 (v # vs) ! i \<notin> set seen \<and> (v # vs) ! i \<notin> set (take i (v # vs))]
              = [vs ! i. i \<leftarrow> [0..<length vs], vs ! i \<notin> set (v # seen) \<and> vs ! i \<notin> set (take i vs)]"
    by (induction "[0..<length vs]") (auto simp add: comp_def intro!: arg_cong[where f=concat] map_cong)
  show ?case
  proof (cases "v \<in> set seen")
    case True
    have "unique_loop seen (v # vs) = unique_loop (v # seen) vs"
      using True Cons.IH[of seen] Cons.IH[of "v # seen"]
      by (auto intro!: arg_cong[where f=concat] map_cong)
    then show ?thesis unfolding upt using True Cons.IH[of "v # seen"] rest by simp
  next
    case False
    then show ?thesis unfolding upt using Cons.IH[of "v # seen"] rest by simp
  qed
qed

lemma unique_primeiras: "unique col = primeiras col"
  by (simp add: unique_def primeiras_def unique_loop_char)

lemma distinct_unique_loop: "distinct (unique_loop seen vs) \<and> set (unique_loop seen vs) = set vs - set seen"
  by (induction vs arbitrary: seen) auto

lemma unique_props: "distinct (unique vs)" "set (unique vs) = set vs"
  using distinct_unique_loop[of "[]" vs] by (simp_all add: unique_def)

lemma getitem_cliente:
  assumes "columns d = map Str colunas_esperadas"
  shows "getitem ''Cliente'' d = Series (map (\<lambda>r. r ! 3) (rows d))"
  using getitem_table[OF assms, of 3] by (simp add: colunas_esperadas_def)

lemma criar_pdf_unfold:
  assumes "columns d = map Str colunas_esperadas"
  shows "criar_pdf_por_cliente rl output_dir d (Str nome) built
           = (if \<not> paragraph_ok rl (titulo (documento output_dir d (Str nome)))
              then (built, Inl ValueError)
              else if list_ex (\<lambda>linha. list_ex (\<lambda>texto. \<not> paragraph_ok rl texto) linha)
                              (linhas (documento output_dir d (Str nome)))
                   then (built, Inl ValueError)
              else if \<not> build_ok rl (documento output_dir d (Str nome)) then (built, Inl BuildError)
              else (built @ [documento output_dir d (Str nome)],
                    Inr (os_path_join output_dir (nome_seguro nome @ ''.pdf''))))"
proof -
  have "map fst (filter snd (zip (rows d) (map (\<lambda>r. py_eq (r ! 3) (Str nome)) (rows d))))
          = [r \<leftarrow> rows d. py_eq (r ! 3) (Str nome)]"
    by (rule boolean_index_filter)
  moreover have "[r \<leftarrow> rows d. py_eq (r ! 3) (Str nome)] = [r \<leftarrow> rows d. r ! 3 = Str nome]"
    by (rule filter_cong) (auto simp add: py_eq_def notna_def)
  ultimately show ?thesis
    by (simp add: criar_pdf_por_cliente_def getitem_cliente[OF assms] Let_def documento_def
          boolean_index_def py_str_def comp_def)
qed

lemma criar_pdf_str:
  assumes "columns d = map Str colunas_esperadas"
    and "paragraph_ok rl (titulo (documento output_dir d (Str nome)))"
    and "list_all (\<lambda>r. list_all (\<lambda>v. paragraph_ok rl (py_str v)) r) (rows d)"
    and "build_ok rl (documento output_dir d (Str nome))"
  shows "criar_pdf_por_cliente rl output_dir d (Str nome) built
           = (built @ [documento output_dir d (Str nome)],
              Inr (os_path_join output_dir (nome_seguro nome @ ''.pdf'')))"
proof -
  have cells: "\<not> list_ex (\<lambda>linha. list_ex (\<lambda>texto. \<not> paragraph_ok rl texto) linha)
                  (linhas (documento output_dir d (Str nome)))"
    using assms(3) by (auto simp add: documento_def list_all_iff list_ex_iff)
  show ?thesis
    unfolding criar_pdf_unfold[OF assms(1)] using assms(2,4) cells by simp
qed

lemma gerar_loop_str:
  assumes "columns d = map Str colunas_esperadas" "list_all is_str cs"
    and "list_all (\<lambda>c. paragraph_ok rl (titulo (documento output_dir d c))
                       \<and> build_ok rl (documento output_dir d c)) cs"
    and "list_all (\<lambda>r. list_all (\<lambda>v. paragraph_ok rl (py_str v)) r) (rows d)"
  shows "gerar_loop rl output_dir d cs built arquivos
           = (built @ map (documento output_dir d) cs,
              Inr (arquivos @ map (\<lambda>c. os_path_join output_dir (nome_seguro (py_str c) @ ''.pdf'')) cs))"
  using assms(2,3)
proof (induction cs arbitrary: built arquivos)
  case Nil
  then show ?case by simp
next
  case (Cons c cs)
  then obtain nome where c: "c = Str nome" by (cases c) (auto simp add: is_str_def)
  from Cons.prems have "list_all is_str cs"
    "list_all (\<lambda>c. paragraph_ok rl (titulo (documento output_dir d c))
                       \<and> build_ok rl (documento output_dir d c)) cs" by simp_all
  note ih = Cons.IH[OF this]
  from Cons.prems(2) c have t: "paragraph_ok rl (titulo (documento output_dir d (Str nome)))"
    and b: "build_ok rl (documento output_dir d (Str nome))" by simp_all
  show ?case
    by (simp add: c criar_pdf_str[OF assms(1) t assms(4) b] ih py_str_def)
qed

lemma criar_pdf_refused:
  assumes "columns d = map Str colunas_esperadas"
    and "\<not> paragraph_ok rl (titulo (documento output_dir d (Str nome)))"
  shows "criar_pdf_por_cliente rl output_dir d (Str nome) built = (built, Inl ValueError)"
  unfolding criar_pdf_unfold[OF assms(1)] using assms(2) by simp

lemma markup_refused_example:
  "gerar_pdfs_todos_clientes reportlab_exemplo ''relatorios'' tabela_marcacao = ([], Inl ValueError)"
  unfolding tabela_marcacao_def reportlab_exemplo_def by code_simp

lemma last_dropWhile: "dropWhile P xs \<noteq> [] \<Longrightarrow> last (dropWhile P xs) = last xs"
  by (induction xs) (auto split: if_splits)

lemma strip_trimmed:
  assumes "strip s \<noteq> []"
  shows "\<not> isspace (hd (strip s))" "\<not> isspace (last (strip s))"
proof -
  define u where "u = dropWhile isspace s"
  define v where "v = dropWhile isspace (rev u)"
  have t: "strip s = rev v" by (simp add: strip_def u_def v_def)
  with assms have v: "v \<noteq> []" by simp
  then have u: "u \<noteq> []" by (auto simp add: v_def)
  have "hd (strip s) = last v" using v by (simp add: t hd_rev)
  also have "\<dots> = last (rev u)" using v unfolding v_def by (rule last_dropWhile)
  also have "\<dots> = hd u" using u by (simp add: last_rev)
  finally have "hd (strip s) = hd u" .
  moreover have "\<not> isspace (hd u)" using u unfolding u_def by (rule hd_dropWhile)
  ultimately show "\<not> isspace (hd (strip s))" by simp
  have "last (strip s) = hd v" using v by (simp add: t last_rev)
  moreover have "\<not> isspace (hd v)" using v unfolding v_def by (rule hd_dropWhile)
  ultimately show "\<not> isspace (last (strip s))" by simp
qed

lemma set_strip: "set (strip s) \<subseteq> set s"
proof -
  have "set (strip s) \<subseteq> set (dropWhile isspace s)"
    using set_dropWhileD[of _ isspace "rev (dropWhile isspace s)"] by (auto simp add: strip_def)
  also have "\<dots> \<subseteq> set s" using set_dropWhileD[of _ isspace s] by auto
  finally show ?thesis .
qed

lemma nome_seguro_chars: "list_all (\<lambda>ch. isalnum ch \<or> ch \<in> set '' -_'') (nome_seguro c)"
  using set_strip[of "filter (\<lambda>c. isalnum c \<or> c \<in> set '' -_'') c"]
  by (auto simp add: nome_seguro_def list_all_iff)

lemma os_path_join_plain:
  assumes "output_dir \<noteq> []" "last output_dir \<noteq> CHR ''/''"
  shows "os_path_join output_dir (nome_seguro c @ ''.pdf'') = output_dir @ ''/'' @ nome_seguro c @ ''.pdf''"
proof -
  have "\<not> startswith (nome_seguro c @ ''.pdf'') ''/''"
  proof (cases "nome_seguro c")
    case Nil
    then show ?thesis by (simp add: startswith_def)
  next
    case (Cons a as)
    have "a \<in> set (nome_seguro c)" using Cons by simp
    then have "isalnum a \<or> a \<in> set '' -_''" using nome_seguro_chars[of c] by (simp add: list_all_iff)
    then have "a \<noteq> CHR ''/''" by (auto simp add: isalnum_def)
    then show ?thesis using Cons by (simp add: startswith_def)
  qed
  then show ?thesis using assms by (simp add: os_path_join_def)
qed

lemma get_valores_unicos_sorted: "sorted (get_valores_unicos s coluna)"
  by (simp add: get_valores_unicos_def split: option.split selection.split)

lemma get_valores_unicos_trimmed:
  assumes "v \<in> set (get_valores_unicos s coluna)"
  shows "v \<noteq> [] \<and> \<not> isspace (hd v) \<and> \<not> isspace (last v)"
proof -
  from assms obtain val where "v = strip (py_str val)" "strip (py_str val) \<noteq> []"
    by (auto simp add: get_valores_unicos_def split: option.splits selection.splits)
  then show ?thesis using strip_trimmed[of "py_str val"] by simp
qed

lemma get_valores_unicos_unloaded: "self_df s = None \<Longrightarrow> get_valores_unicos s coluna = []"
  by (simp add: get_valores_unicos_def)

lemma get_valores_unicos_unknown:
  "self_df s = Some r \<Longrightarrow> Str coluna \<notin> set (columns (objs s r)) \<Longrightarrow> get_valores_unicos s coluna = []"
  by (simp add: get_valores_unicos_def getitem_def positions_notin)

lemma isspace_lower_char: "isspace (lower_char c) = isspace c"
proof -
  have "of_char c < (256::nat)" by simp
  then show ?thesis
    by (auto simp add: isspace_def lower_char_def Let_def)
qed

lemma strip_lower: "strip (lower s) = lower (strip s)"
  by (simp add: strip_def lower_def dropWhile_map rev_map comp_def isspace_lower_char)

section \<open>Claims\<close>

text \<open>
  C1. After a successful \<open>processar_arquivo\<close> the \<open>Quantidade\<close> column of the table is
  \<open>1, 2, ..., N\<close> in row order, \<open>N\<close> being the number of rows, whatever the source
  sheet held in a column of that name; and \<open>filtrar_dados\<close> on that table returns a
  table whose \<open>Quantidade\<close> column is again \<open>1..N\<close> for its own number of rows.
\<close>

theorem quantidade_is_sequence:
  assumes "processar_arquivo s arquivo = (s', True, m)"
  shows "getitem ''Quantidade'' (cur s') = Series (py_range 1 (len (cur s') + 1))
         \<and> (\<exists>s'' r. filtrar_dados s' filtros = (s'', Inr r)
               \<and> getitem ''Quantidade'' (objs s'' r) = Series (py_range 1 (len (objs s'' r) + 1)))"
proof -
  note l = load_table[OF assms]
  have q: "\<And>d. table_ok d \<Longrightarrow> getitem ''Quantidade'' d = Series (py_range 1 (len d + 1))"
    using getitem_quantidade by (simp add: table_ok_def)
  from filtrar_dados_table[OF l(1,2,3), of filtros] obtain s'' r where
    "filtrar_dados s' filtros = (s'', Inr r)" "table_ok (objs s'' r)" by blast
  then show ?thesis using q l(3,4) by auto
qed

theorem quantidade_is_sequence_witness:
  "getitem ''Quantidade'' (cur (fst (processar_arquivo init planilha)))
     = Series (py_range 1 (len (cur (fst (processar_arquivo init planilha))) + 1))
   \<and> (\<exists>s'' r. filtrar_dados (fst (processar_arquivo init planilha)) [(''Cliente'', [Str ''Beta''])] = (s'', Inr r)
               \<and> getitem ''Quantidade'' (objs s'' r) = Series (py_range 1 (len (objs s'' r) + 1)))"
  using quantidade_is_sequence[OF planilha_loads] .

text \<open>
  C2. After a successful \<open>processar_arquivo\<close> the table has exactly the eight
  expected columns, in the order of \<open>colunas_esperadas\<close>, whatever columns the source
  sheet had; and the table \<open>filtrar_dados\<close> returns for it has the same columns in the
  same order.
\<close>

theorem canonical_columns:
  assumes "processar_arquivo s arquivo = (s', True, m)"
  shows "columns (cur s') = map Str colunas_esperadas
         \<and> (\<exists>s'' r. filtrar_dados s' filtros = (s'', Inr r)
               \<and> columns (objs s'' r) = map Str colunas_esperadas)"
proof -
  note l = load_table[OF assms]
  from filtrar_dados_table[OF l(1,2,3), of filtros] obtain s'' r where
    "filtrar_dados s' filtros = (s'', Inr r)" "table_ok (objs s'' r)" by blast
  then show ?thesis using l(3,4) by (auto simp add: table_ok_def)
qed

theorem canonical_columns_witness:
  "columns (cur (fst (processar_arquivo init planilha))) = map Str colunas_esperadas
   \<and> (\<exists>s'' r. filtrar_dados (fst (processar_arquivo init planilha)) [(''Cidade'', [Str ''Natal''])] = (s'', Inr r)
               \<and> columns (objs s'' r) = map Str colunas_esperadas)"
  using canonical_columns[OF planilha_loads] .

text \<open>
  C3. The header row \<open>processar_arquivo\<close> selects is the first row of the sheet, from
  the top, in which some cell that is not blank gives exactly the text \<open>item\<close> once
  lowercased and trimmed (a longer text that contains \<open>item\<close> does not count); the
  sheet is then read with that row as header. When no row has such a cell the load
  fails: it returns \<open>False\<close> with the header message and leaves the processor as it was.
  Trimming before lowercasing gives the same rows.
\<close>

theorem header_row_is_first_item_row:
  "(header_loop 0 (read_excel_no_header arquivo) = Some k \<longleftrightarrow>
      k < length arquivo \<and> has_item (arquivo ! k) \<and> (\<forall>j < k. \<not> has_item (arquivo ! j)))
   \<and> (header_loop 0 (read_excel_no_header arquivo) = Some k \<longrightarrow>
        processar_arquivo s arquivo =
          (case processar_try s arquivo k of
             (s', Inl e) \<Rightarrow> (s', False, ''Erro ao processar arquivo: '' @ str_error e)
           | (s', Inr r) \<Rightarrow> (s', r)))
   \<and> ((\<forall>row \<in> set arquivo. \<not> has_item row) \<longrightarrow>
        processar_arquivo s arquivo = (s, False, msg_header))
   \<and> has_item row = list_ex (\<lambda>c. notna c \<and> lower (strip (py_str c)) = ''item'') row"
proof (intro conjI impI)
  show "header_loop 0 (read_excel_no_header arquivo) = Some k \<longleftrightarrow>
      k < length arquivo \<and> has_item (arquivo ! k) \<and> (\<forall>j < k. \<not> has_item (arquivo ! j))"
    using has_item_pad[of _ arquivo]
    by (auto simp add: header_loop_char read_excel_no_header_def length_pad)
next
  assume "header_loop 0 (read_excel_no_header arquivo) = Some k"
  then show "processar_arquivo s arquivo =
          (case processar_try s arquivo k of
             (s', Inl e) \<Rightarrow> (s', False, ''Erro ao processar arquivo: '' @ str_error e)
           | (s', Inr r) \<Rightarrow> (s', r))"
    by (simp add: processar_arquivo_def split: prod.split sum.split)
next
  assume none: "\<forall>row \<in> set arquivo. \<not> has_item row"
  have "header_loop 0 (read_excel_no_header arquivo) = None"
  proof (cases "header_loop 0 (read_excel_no_header arquivo)")
    case None
    then show ?thesis .
  next
    case (Some k)
    then have "k < length arquivo \<and> has_item (arquivo ! k)"
      using has_item_pad[of k arquivo]
      by (auto simp add: header_loop_char read_excel_no_header_def length_pad)
    with none show ?thesis by auto
  qed
  then show "processar_arquivo s arquivo = (s, False, msg_header)"
    by (simp add: processar_arquivo_def)
next
  show "has_item row = list_ex (\<lambda>c. notna c \<and> lower (strip (py_str c)) = ''item'') row"
    by (simp add: has_item_def strip_lower)
qed

theorem header_row_is_first_item_row_witness:
  "header_loop 0 (read_excel_no_header planilha) = Some 1
   \<and> processar_arquivo init planilha_sem_cabecalho = (init, False, msg_header)"
  using header_row_is_first_item_row[of planilha 1 init]
    header_row_is_first_item_row[of planilha_sem_cabecalho 0 init]
    planilha_rows sem_cabecalho_rows
  by blast

text \<open>
  C4. On a processor that has loaded nothing (\<open>self.df\<close> is \<open>None\<close>) the copy in
  the \<open>try\<close> raises \<open>AttributeError\<close>, and the handler, which copies \<open>self.df\<close>
  again, raises it once more: \<open>filtrar_dados\<close> raises instead of returning a table.
\<close>

theorem filtrar_without_table:
  "filtrar_dados init filtros = (init, Inl AttributeError)"
  by (simp add: filtrar_dados_def init_def)

text \<open>
  C5, as the code has it. After a successful load, each column other than
  \<open>Quantidade\<close> is of one of two kinds: if the source sheet has a column of that name
  (after trimming the header text), every cell of it is a \<open>str\<close>, with no promise
  that it is trimmed; if the source has no such column, every cell of it is the
  missing value.
\<close>

theorem non_quantidade_cells_are_text_or_missing:
  assumes "processar_arquivo s arquivo = (s', True, m)"
  shows "\<exists>k d2. header_loop 0 (read_excel_no_header arquivo) = Some k
           \<and> drop_unnamed (read_excel_header arquivo k) = Inr d2
           \<and> (\<forall>j < 7. \<exists>vs. getitem (colunas_esperadas ! j) (cur s') = Series vs
                 \<and> (if colunas_esperadas ! j \<in> set (nomes_fonte d2)
                    then list_all is_str vs else vs = replicate (len (cur s')) NaN))"
proof -
  from load_success[OF assms] obtain k d2 where
    h: "header_loop 0 (read_excel_no_header arquivo) = Some k"
    and d: "drop_unnamed (read_excel_header arquivo k) = Inr d2"
    and r: "reindex_columns colunas_esperadas (pipeline d2) = Inr (cur s')" by blast
  have c: "columns (cur s') = map Str colunas_esperadas" by (rule reindex_Inr(2)[OF r])
  have "\<forall>j < 7. \<exists>vs. getitem (colunas_esperadas ! j) (cur s') = Series vs
                 \<and> (if colunas_esperadas ! j \<in> set (nomes_fonte d2)
                    then list_all is_str vs else vs = replicate (len (cur s')) NaN)"
  proof (intro allI impI)
    fix j :: nat assume j: "j < 7"
    then have j8: "j < 8" by simp
    show "\<exists>vs. getitem (colunas_esperadas ! j) (cur s') = Series vs
                 \<and> (if colunas_esperadas ! j \<in> set (nomes_fonte d2)
                    then list_all is_str vs else vs = replicate (len (cur s')) NaN)"
      using getitem_table[OF c j8] load_cells[OF r j] by simp
  qed
  with h d show ?thesis by blast
qed

theorem non_quantidade_cells_are_text_or_missing_witness:
  "\<exists>k d2. header_loop 0 (read_excel_no_header planilha) = Some k
           \<and> drop_unnamed (read_excel_header planilha k) = Inr d2
           \<and> (\<forall>j < 7. \<exists>vs. getitem (colunas_esperadas ! j) (cur (fst (processar_arquivo init planilha))) = Series vs
                 \<and> (if colunas_esperadas ! j \<in> set (nomes_fonte d2)
                    then list_all is_str vs
                    else vs = replicate (len (cur (fst (processar_arquivo init planilha)))) NaN))"
  using non_quantidade_cells_are_text_or_missing[OF planilha_loads] .

text \<open>
  The claim as stated fails: a \<open>Cliente\<close> cell \<open>Acme \<close> with a trailing blank is stored
  unchanged, and the absent column \<open>Cidade\<close> holds missing values, not text.
\<close>

theorem cells_not_trimmed_counterexample:
  "fst (snd (processar_arquivo init planilha_espacos)) = True
   \<and> getitem ''Cliente'' (cur (fst (processar_arquivo init planilha_espacos)))
       = Series [Str ''Acme'', Str ''Acme '']
   \<and> strip ''Acme '' \<noteq> ''Acme ''
   \<and> getitem ''Cidade'' (cur (fst (processar_arquivo init planilha_espacos))) = Series [NaN, NaN]"
  unfolding planilha_espacos_def by code_simp

text \<open>
  C6, as the code has it. On a workbook with a header row whose cells are text or
  blank and in which no expected name occurs twice after trimming, the load succeeds
  whichever expected columns are absent; each absent column other than \<open>Quantidade\<close>
  becomes a column of missing values, and \<open>Quantidade\<close>, absent or not, is \<open>1..N\<close>.
\<close>

theorem missing_column_still_loads:
  assumes "header_loop 0 (read_excel_no_header arquivo) = Some k"
    and "drop_unnamed (read_excel_header arquivo k) = Inr d2"
    and "distinct [c \<leftarrow> nomes_fonte d2. c \<in> set colunas_esperadas]"
  shows "\<exists>s'. processar_arquivo s arquivo = (s', True, ''Arquivo processado com sucesso!'')
           \<and> (\<forall>j < 7. colunas_esperadas ! j \<notin> set (nomes_fonte d2) \<longrightarrow>
                 getitem (colunas_esperadas ! j) (cur s') = Series (replicate (len (cur s')) NaN))
           \<and> getitem ''Quantidade'' (cur s') = Series (py_range 1 (len (cur s') + 1))"
proof -
  from load_ok[OF assms(1,2) pipeline_distinct[OF assms(3)], of s] obtain s' where
    p: "processar_arquivo s arquivo = (s', True, ''Arquivo processado com sucesso!'')"
    and r: "reindex_columns colunas_esperadas (pipeline d2) = Inr (cur s')" by auto
  have c: "columns (cur s') = map Str colunas_esperadas" by (rule reindex_Inr(2)[OF r])
  have t: "table_ok (cur s')" by (rule reindex_pipeline_table_ok[OF r])
  have q: "getitem ''Quantidade'' (cur s') = Series (py_range 1 (len (cur s') + 1))"
    using getitem_quantidade[OF c] t by (simp add: table_ok_def)
  have "\<forall>j < 7. colunas_esperadas ! j \<notin> set (nomes_fonte d2) \<longrightarrow>
                 getitem (colunas_esperadas ! j) (cur s') = Series (replicate (len (cur s')) NaN)"
  proof (intro allI impI)
    fix j :: nat assume j: "j < 7" and a: "colunas_esperadas ! j \<notin> set (nomes_fonte d2)"
    then have j8: "j < 8" by simp
    show "getitem (colunas_esperadas ! j) (cur s') = Series (replicate (len (cur s')) NaN)"
      using getitem_table[OF c j8] load_cells[OF r j] a by simp
  qed
  with p q show ?thesis by blast
qed

theorem missing_column_still_loads_witness:
  "\<exists>s'. processar_arquivo init planilha_minima = (s', True, ''Arquivo processado com sucesso!'')
           \<and> (\<forall>j < 7. colunas_esperadas ! j
                          \<notin> set (nomes_fonte \<lparr>columns = [Str ''Item'', Str ''Cliente''], rows = [[Str ''a1'', Str ''Acme'']]\<rparr>) \<longrightarrow>
                 getitem (colunas_esperadas ! j) (cur s') = Series (replicate (len (cur s')) NaN))
           \<and> getitem ''Quantidade'' (cur s') = Series (py_range 1 (len (cur s') + 1))"
  using missing_column_still_loads[OF planilha_minima_header planilha_minima_frame planilha_minima_nomes] .

text \<open>
  The claim as stated fails for one of the eight columns: a sheet without a
  \<open>Quantidade\<close> column loads, and the column is \<open>1..N\<close>, not missing values.
\<close>

theorem missing_quantidade_counterexample:
  "''Quantidade'' \<notin> set (nomes_fonte (read_excel_header planilha_minima 0))
   \<and> fst (snd (processar_arquivo init planilha_minima)) = True
   \<and> getitem ''Quantidade'' (cur (fst (processar_arquivo init planilha_minima))) = Series [Num 1]
   \<and> getitem ''Cidade'' (cur (fst (processar_arquivo init planilha_minima))) = Series [NaN]"
  unfolding planilha_minima_def nomes_fonte_def by code_simp

text \<open>
  C7, as the code has it. For a table with the eight expected columns whose
  \<open>Cliente\<close> cells are all text, when reportlab accepts the title of every customer
  and the text of every cell as a paragraph and builds the document of every
  customer, \<open>gerar_pdfs_todos_clientes\<close> builds one document for
  each distinct \<open>Cliente\<close> value, in the order in which the values first occur from the
  top of the table (the value of each row whose \<open>Cliente\<close> occurs in no row above it).
  The body of a document is the rows whose \<open>Cliente\<close> is that value, in table order,
  and the paths returned are those of the documents, in the same order: the output
  directory joined with the safe name and \<open>.pdf\<close>. A safe name holds only
  alphanumeric characters, blanks, hyphens and underscores and neither begins nor ends
  with whitespace; the join is \<open>dir/name.pdf\<close> when the directory is not empty and does
  not end in a slash.
\<close>

theorem one_document_per_cliente:
  assumes "columns d = map Str colunas_esperadas"
    and "list_all is_str (map (\<lambda>r. r ! 3) (rows d))"
    and "list_all (\<lambda>c. paragraph_ok rl (titulo (documento output_dir d c))
                       \<and> build_ok rl (documento output_dir d c)) (map (\<lambda>r. r ! 3) (rows d))"
    and "list_all (\<lambda>r. list_all (\<lambda>v. paragraph_ok rl (py_str v)) r) (rows d)"
  shows "getitem ''Cliente'' d = Series (map (\<lambda>r. r ! 3) (rows d))
         \<and> gerar_pdfs_todos_clientes rl output_dir d
             = (map (documento output_dir d) (primeiras (map (\<lambda>r. r ! 3) (rows d))),
                Inr (map (\<lambda>c. os_path_join output_dir (nome_seguro (py_str c) @ ''.pdf''))
                         (primeiras (map (\<lambda>r. r ! 3) (rows d)))))
         \<and> distinct (primeiras (map (\<lambda>r. r ! 3) (rows d)))
         \<and> set (primeiras (map (\<lambda>r. r ! 3) (rows d))) = set (map (\<lambda>r. r ! 3) (rows d))
         \<and> list_all (\<lambda>ch. isalnum ch \<or> ch \<in> set '' -_'') (nome_seguro c)
         \<and> (nome_seguro c \<noteq> [] \<longrightarrow> \<not> isspace (hd (nome_seguro c)) \<and> \<not> isspace (last (nome_seguro c)))
         \<and> (output_dir \<noteq> [] \<and> last output_dir \<noteq> CHR ''/'' \<longrightarrow>
              os_path_join output_dir (nome_seguro c @ ''.pdf'') = output_dir @ ''/'' @ nome_seguro c @ ''.pdf'')"
proof -
  define col where "col = map (\<lambda>r. r ! 3) (rows d)"
  have g: "getitem ''Cliente'' d = Series col" unfolding col_def by (rule getitem_cliente[OF assms(1)])
  have u: "set (unique col) = set col" by (rule unique_props(2))
  have s1: "list_all is_str (unique col)"
    using assms(2) u by (auto simp add: list_all_iff col_def)
  have s2: "list_all (\<lambda>c. paragraph_ok rl (titulo (documento output_dir d c))
                       \<and> build_ok rl (documento output_dir d c)) (unique col)"
    using assms(3) u unfolding list_all_iff col_def by blast
  from gerar_loop_str[OF assms(1) s1 s2 assms(4), of "[]" "[]"]
  have run: "gerar_pdfs_todos_clientes rl output_dir d
             = (map (documento output_dir d) (primeiras col),
                Inr (map (\<lambda>c. os_path_join output_dir (nome_seguro (py_str c) @ ''.pdf'')) (primeiras col)))"
    by (simp add: gerar_pdfs_todos_clientes_def g unique_primeiras)
  have dist: "distinct (primeiras col)" "set (primeiras col) = set col"
    using unique_props[of col] by (simp_all add: unique_primeiras)
  have trim: "nome_seguro c \<noteq> [] \<longrightarrow> \<not> isspace (hd (nome_seguro c)) \<and> \<not> isspace (last (nome_seguro c))"
    using strip_trimmed[of "filter (\<lambda>c. isalnum c \<or> c \<in> set '' -_'') c"] by (simp add: nome_seguro_def)
  show ?thesis
    using g run dist trim nome_seguro_chars[of c] os_path_join_plain[of output_dir c]
    unfolding col_def by blast
qed

theorem one_document_per_cliente_witness:
  "columns tabela_exemplo = map Str colunas_esperadas
   \<and> list_all is_str (map (\<lambda>r. r ! 3) (rows tabela_exemplo))
   \<and> list_all (\<lambda>c. paragraph_ok reportlab_exemplo (titulo (documento ''relatorios'' tabela_exemplo c))
                    \<and> build_ok reportlab_exemplo (documento ''relatorios'' tabela_exemplo c))
               (map (\<lambda>r. r ! 3) (rows tabela_exemplo))
   \<and> list_all (\<lambda>r. list_all (\<lambda>v. paragraph_ok reportlab_exemplo (py_str v)) r) (rows tabela_exemplo)
   \<and> gerar_pdfs_todos_clientes reportlab_exemplo ''relatorios'' tabela_exemplo
        = (map (documento ''relatorios'' tabela_exemplo) (primeiras (map (\<lambda>r. r ! 3) (rows tabela_exemplo))),
           Inr (map (\<lambda>c. os_path_join ''relatorios'' (nome_seguro (py_str c) @ ''.pdf''))
                    (primeiras (map (\<lambda>r. r ! 3) (rows tabela_exemplo)))))
   \<and> primeiras (map (\<lambda>r. r ! 3) (rows tabela_exemplo)) = [Str ''Acme'', Str ''Beta'']
   \<and> os_path_join ''relatorios'' (nome_seguro ''Acme/SA'' @ ''.pdf'') = ''relatorios/AcmeSA.pdf''"
proof -
  have h1: "columns tabela_exemplo = map Str colunas_esperadas" by (simp add: tabela_exemplo_def)
  have h2: "list_all is_str (map (\<lambda>r. r ! 3) (rows tabela_exemplo))"
    by (simp add: tabela_exemplo_def is_str_def)
  have h3: "list_all (\<lambda>c. paragraph_ok reportlab_exemplo (titulo (documento ''relatorios'' tabela_exemplo c))
                    \<and> build_ok reportlab_exemplo (documento ''relatorios'' tabela_exemplo c))
               (map (\<lambda>r. r ! 3) (rows tabela_exemplo))"
    unfolding tabela_exemplo_def reportlab_exemplo_def documento_def by code_simp
  have h4: "list_all (\<lambda>r. list_all (\<lambda>v. paragraph_ok reportlab_exemplo (py_str v)) r) (rows tabela_exemplo)"
    unfolding tabela_exemplo_def reportlab_exemplo_def by code_simp
  have p: "primeiras (map (\<lambda>r. r ! 3) (rows tabela_exemplo)) = [Str ''Acme'', Str ''Beta'']"
    unfolding tabela_exemplo_def primeiras_def by code_simp
  have n: "nome_seguro ''Acme/SA'' = ''AcmeSA''" unfolding nome_seguro_def by code_simp
  from one_document_per_cliente[OF h1 h2 h3 h4, of "''Acme/SA''"] h1 h2 h3 h4 p n
  show ?thesis by simp
qed

text \<open>
  The claim as stated fails on a table: a sheet without a \<open>Cliente\<close> column loads
  into a table whose \<open>Cliente\<close> cells are missing values, and on that table
  \<open>criar_pdf_por_cliente\<close> iterates over a value that is not a \<open>str\<close>: the call raises
  \<open>TypeError\<close> before reportlab is reached, and no document is built.
\<close>

theorem missing_cliente_counterexample:
  "fst (snd (processar_arquivo init planilha_sem_cliente)) = True
   \<and> gerar_pdfs_todos_clientes reportlab_exemplo ''relatorios''
         (cur (fst (processar_arquivo init planilha_sem_cliente)))
       = ([], Inl TypeError)"
  unfolding planilha_sem_cliente_def reportlab_exemplo_def by code_simp

text \<open>
  C8. Two cells that differ only in surrounding blanks are two values for
  \<open>unique()\<close> and one text after \<open>strip()\<close>: for the column \<open>Acme\<close>,
  \<open>Acme \<close> the function \<open>get_valores_unicos\<close> returns the same text twice.
\<close>

theorem valores_unicos_repeats:
  "fst (snd (processar_arquivo init planilha_espacos)) = True \<and>
   get_valores_unicos (fst (processar_arquivo init planilha_espacos)) ''Cliente'' = [''Acme'', ''Acme'']"
  unfolding planilha_espacos_def by code_simp

text \<open>
  C9. \<open>filtrar_dados\<close> is idempotent for a fixed filter: on a loaded table it returns
  a table, and filtering that result again with the same filter (the result taking the
  place of \<open>self.df\<close>) returns an equal table, renumbered \<open>Quantidade\<close> included, so
  every row the filter selected still passes it after the renumbering.
\<close>

theorem filtrar_idempotent:
  assumes "processar_arquivo s arquivo = (s', True, m)"
  shows "\<exists>s1 r1 s2 r2. filtrar_dados s' filtros = (s1, Inr r1)
           \<and> filtrar_dados (s1\<lparr>self_df := Some r1\<rparr>) filtros = (s2, Inr r2)
           \<and> objs s2 r2 = objs s1 r1"
proof -
  note l = load_table[OF assms]
  define T where "T = objs s' (nxt s + 4)"
  from filtrar_dados_table[OF l(1,2,3), of filtros] obtain s1 r1 where
    f1: "filtrar_dados s' filtros = (s1, Inr r1)" and lt: "r1 < nxt s1" and t1: "table_ok (objs s1 r1)"
    and c1: "case apply_filters T filtros of Inl e \<Rightarrow> objs s1 r1 = T | Inr d \<Rightarrow> objs s1 r1 = renum d"
    unfolding T_def by blast
  define s1' where "s1' = s1\<lparr>self_df := Some r1\<rparr>"
  have a: "self_df s1' = Some r1" "r1 < nxt s1'" "table_ok (objs s1' r1)"
    using lt t1 by (simp_all add: s1'_def)
  from filtrar_dados_table[OF a, of filtros] obtain s2 r2 where
    f2: "filtrar_dados s1' filtros = (s2, Inr r2)"
    and c2: "case apply_filters (objs s1' r1) filtros of Inl e \<Rightarrow> objs s2 r2 = objs s1' r1
             | Inr d \<Rightarrow> objs s2 r2 = renum d"
    by blast
  have o: "objs s1' r1 = objs s1 r1" by (simp add: s1'_def)
  have "objs s2 r2 = objs s1 r1"
  proof (cases "apply_filters T filtros")
    case (Inl e)
    with c1 have "objs s1 r1 = T" by simp
    with c2 o Inl show ?thesis by simp
  next
    case (Inr d)
    with c1 have r: "objs s1 r1 = renum d" by simp
    have tT: "table_ok T" using l(3) by (simp add: T_def)
    have "apply_filters (renum d) filtros = Inr (renum d)" by (rule apply_filters_renum[OF tT Inr])
    with c2 o r have "objs s2 r2 = renum (renum d)" by simp
    moreover have "renum (renum d) = renum d" using renum_same t1 r by simp
    ultimately show ?thesis using r by simp
  qed
  with f1 f2 show ?thesis unfolding s1'_def by blast
qed

theorem filtrar_idempotent_witness:
  "\<exists>s1 r1 s2 r2. filtrar_dados (fst (processar_arquivo init planilha)) [(''Cliente'', [Str ''Acme''])] = (s1, Inr r1)
           \<and> filtrar_dados (s1\<lparr>self_df := Some r1\<rparr>) [(''Cliente'', [Str ''Acme''])] = (s2, Inr r2)
           \<and> objs s2 r2 = objs s1 r1"
  using filtrar_idempotent[OF planilha_loads] .

text \<open>
  C10. \<open>filtrar_dados\<close> leaves the table of the session alone: on a loaded table,
  whether the filters apply or the call falls back to the unfiltered copy, \<open>self.df\<close>
  still refers to the same frame, that frame and every other frame that existed before
  the call are unchanged, and the frame returned is a different object.
\<close>

theorem filtrar_keeps_session_table:
  assumes "processar_arquivo s arquivo = (s', True, m)"
  shows "\<exists>s'' r. filtrar_dados s' filtros = (s'', Inr r)
           \<and> self_df s'' = self_df s' \<and> cur s'' = cur s'
           \<and> (\<forall>a < nxt s'. objs s'' a = objs s' a)
           \<and> self_df s' \<noteq> Some r"
proof -
  note l = load_table[OF assms]
  from filtrar_dados_table[OF l(1,2,3), of filtros] obtain s'' r where
    f: "filtrar_dados s' filtros = (s'', Inr r)" and sd: "self_df s'' = self_df s'"
    and old: "\<forall>a < nxt s'. objs s'' a = objs s' a" and ge: "nxt s' \<le> r" by blast
  have "cur s'' = cur s'" using sd old l(1,2) by (simp add: cur_def)
  moreover have "self_df s' \<noteq> Some r" using l(1,2) ge by simp
  ultimately show ?thesis using f sd old by blast
qed

theorem filtrar_keeps_session_table_witness:
  "\<exists>s'' r. filtrar_dados (fst (processar_arquivo init planilha)) [(''Endereco'', [Str ''Rua 1''])] = (s'', Inr r)
           \<and> self_df s'' = self_df (fst (processar_arquivo init planilha))
           \<and> cur s'' = cur (fst (processar_arquivo init planilha))
           \<and> (\<forall>a < nxt (fst (processar_arquivo init planilha)). objs s'' a = objs (fst (processar_arquivo init planilha)) a)
           \<and> self_df (fst (processar_arquivo init planilha)) \<noteq> Some r"
  using filtrar_keeps_session_table[OF planilha_loads] .

end
